theory Spec2Isabelle
  imports Main
begin

section \<open>Python strings\<close>

text \<open>
  A Python \<^verbatim>\<open>str\<close> is modelled as a \<^typ>\<open>string\<close> whose characters stand for the
  code points 0..255. The three string operations that \<^verbatim>\<open>pdf2text.py\<close> uses are
  \<^verbatim>\<open>str.strip()\<close>, \<^verbatim>\<open>str.lower()\<close> and \<^verbatim>\<open>sep.join(list)\<close>.
\<close>

definition isspace :: "char \<Rightarrow> bool" where
  \<comment> \<open>\<^verbatim>\<open>str.isspace\<close> on one code point below 256\<close>
  "isspace c = (of_char c \<in> {9, 10, 11, 12, 13, 28, 29, 30, 31, 32, 133, 160 :: nat})"

definition strip :: "string \<Rightarrow> string" where
  "strip s = rev (dropWhile isspace (rev (dropWhile isspace s)))"

definition lower_char :: "char \<Rightarrow> char" where
  "lower_char c = (let n = (of_char c :: nat) in
     if (65 \<le> n \<and> n \<le> 90) \<or> (192 \<le> n \<and> n \<le> 222 \<and> n \<noteq> 215)
     then char_of (n + 32) else c)"

definition lower :: "string \<Rightarrow> string" where
  "lower s = map lower_char s"

fun join :: "string \<Rightarrow> string list \<Rightarrow> string" where
  "join sep [] = []"
| "join sep [x] = x"
| "join sep (x # y # ys) = x @ sep @ join sep (y # ys)"

definition rfind :: "char \<Rightarrow> string \<Rightarrow> int" where
  \<comment> \<open>\<^verbatim>\<open>s.rfind(c)\<close>: the index of the last occurrence, or -1\<close>
  "rfind c s = (if c \<in> set s
     then int (length s) - 1 - int (length (takeWhile (\<lambda>x. x \<noteq> c) (rev s)))
     else - 1)"

definition utf8 :: "string \<Rightarrow> string" where
  \<comment> \<open>\<^verbatim>\<open>text.encode('utf-8')\<close> for code points below 256\<close>
  "utf8 s = concat (map (\<lambda>c. let n = (of_char c :: nat) in
     if n < 128 then [c] else [char_of (192 + n div 64), char_of (128 + n mod 64)]) s)"

section \<open>Paths\<close>

text \<open>
  A \<^verbatim>\<open>pathlib.Path\<close> is modelled by its normalised string \<^verbatim>\<open>str(path)\<close> (POSIX
  flavour): components separated by single slashes, no trailing slash. The
  properties \<^verbatim>\<open>name\<close>, \<^verbatim>\<open>suffix\<close>, \<^verbatim>\<open>stem\<close> and \<^verbatim>\<open>parent\<close> and the operator
  \<^verbatim>\<open>/\<close> follow pathlib's pure-path definitions.
\<close>

type_synonym path = string

definition path_name :: "path \<Rightarrow> string" where
  "path_name p = (if p = ''.'' then [] else rev (takeWhile (\<lambda>c. c \<noteq> CHR ''/'') (rev p)))"

definition path_suffix :: "path \<Rightarrow> string" where
  "path_suffix p = (let name = path_name p; i = rfind (CHR ''.'') name in
     if 0 < i \<and> i < int (length name) - 1 then drop (nat i) name else [])"

definition path_stem :: "path \<Rightarrow> string" where
  "path_stem p = (let name = path_name p; i = rfind (CHR ''.'') name in
     if 0 < i \<and> i < int (length name) - 1 then take (nat i) name else name)"

definition path_parent :: "path \<Rightarrow> path" where
  "path_parent p = (if CHR ''/'' \<in> set p
     then (let d = rev (tl (dropWhile (\<lambda>c. c \<noteq> CHR ''/'') (rev p))) in
           if d = [] then ''/'' else d)
     else ''.'')"

definition path_div :: "path \<Rightarrow> string \<Rightarrow> path" where
  \<comment> \<open>\<^verbatim>\<open>d / name\<close> for a relative single-component \<^verbatim>\<open>name\<close>\<close>
  "path_div d name = (if d = ''.'' then name
     else if d \<noteq> [] \<and> last d = CHR ''/'' then d @ name
     else d @ ''/'' @ name)"

section \<open>Exceptions\<close>

text \<open>
  The exception classes that can reach \<^verbatim>\<open>convert\<close>, \<^verbatim>\<open>batch_convert\<close> and
  \<^verbatim>\<open>main\<close>, each with its message. \<^verbatim>\<open>str(e)\<close> is the message. An exception
  raised inside one of the two PDF libraries is only ever used through
  \<^verbatim>\<open>str(e)\<close>, so the libraries report a failure as that string. All of
  them are subclasses of \<^verbatim>\<open>Exception\<close>, so \<^verbatim>\<open>except Exception\<close> and the bare
  \<^verbatim>\<open>except:\<close> catch the same things here; an interrupt of the process is not
  part of the model.
\<close>

datatype error =
    FileNotFoundError string
  | ValueError string
  | Exception string
  | OSError string

fun str_of :: "error \<Rightarrow> string" where
  "str_of (FileNotFoundError s) = s"
| "str_of (ValueError s) = s"
| "str_of (Exception s) = s"
| "str_of (OSError s) = s"

section \<open>The world: file system, backend invocations, console\<close>

datatype node = File string | Dir | Special | StatError string

datatype backend = PyPDF2 | Pdfplumber

datatype echo =
    Converting path
  | Converted path
  | Extracted string
  | ErrorLine string
  | NoFiles path
  | Found nat
  | Summary nat nat
  | Failed nat
  | ErrorsHeader
  | ErrorItem string string
  | InvalidPath path
  | BadParameter string

text \<open>
  \<open>fs\<close> maps a path to what \<^verbatim>\<open>os.stat\<close> finds there: nothing, a regular file with
  its bytes, a directory, something that is neither (a device, a socket), or
  \<open>StatError\<close>: the call fails with an \<^verbatim>\<open>OSError\<close> that pathlib does not take for
  a missing file (a name longer than the file system allows, a directory that
  may not be searched), with the message of that error. \<open>calls\<close> records
  every entry into \<^verbatim>\<open>extract_with_pypdf2\<close> and \<^verbatim>\<open>extract_with_pdfplumber\<close>, in
  order; it is the call-count instrumentation of a mocked backend. \<open>console\<close>
  collects what \<^verbatim>\<open>click.echo\<close> prints, one constructor of \<^typ>\<open>echo\<close> per message
  of \<^verbatim>\<open>main\<close>.
\<close>

record world =
  fs :: "path \<Rightarrow> node option"
  calls :: "backend list"
  console :: "echo list"

text \<open>
  The collaborators outside the repository. \<open>PdfReader\<close> stands for opening the
  file and building \<^verbatim>\<open>PyPDF2.PdfReader(file).pages\<close>: either the library raises
  (\<open>Inl\<close> its message) or it yields the pages, where \<^verbatim>\<open>page.extract_text()\<close> of
  each page either raises or returns a string. \<open>pdfplumber_open\<close> is the same for
  \<^verbatim>\<open>pdfplumber.open(pdf_path).pages\<close>, whose \<^verbatim>\<open>extract_text()\<close> may return \<^verbatim>\<open>None\<close>.
  Both read the file system and change nothing. \<open>glob\<close> is \<^verbatim>\<open>Path.glob\<close> and
  \<open>mkdir\<close> is \<^verbatim>\<open>Path.mkdir(parents=True, exist_ok=True)\<close>.
\<close>

record env =
  PdfReader :: "(path \<Rightarrow> node option) \<Rightarrow> path \<Rightarrow> string + (string + string) list"
  pdfplumber_open :: "(path \<Rightarrow> node option) \<Rightarrow> path \<Rightarrow> string + (string + string option) list"
  glob :: "(path \<Rightarrow> node option) \<Rightarrow> path \<Rightarrow> string \<Rightarrow> path list"
  mkdir :: "(path \<Rightarrow> node option) \<Rightarrow> path \<Rightarrow> error + (path \<Rightarrow> node option)"

text \<open>
  \<^verbatim>\<open>Path.exists()\<close> (pathlib up to Python 3.13) calls \<^verbatim>\<open>os.stat\<close>. It returns \<^verbatim>\<open>False\<close> when the call fails with
  one of the errors that mean a missing file (ENOENT, ENOTDIR, EBADF, ELOOP) and
  lets every other \<^verbatim>\<open>OSError\<close> through to its caller. \<open>path_exists\<close> says that
  \<^verbatim>\<open>exists()\<close> returns \<^verbatim>\<open>True\<close>; it is also the check of \<^verbatim>\<open>click.Path(exists=True)\<close>,
  which takes any \<^verbatim>\<open>OSError\<close> of \<^verbatim>\<open>os.stat\<close> for a missing path.
\<close>

definition stat_error :: "world \<Rightarrow> path \<Rightarrow> string option" where
  "stat_error w p = (case fs w p of Some (StatError msg) \<Rightarrow> Some msg | _ \<Rightarrow> None)"

definition pathlib_exists :: "world \<Rightarrow> path \<Rightarrow> error + bool" where
  "pathlib_exists w p =
     (case stat_error w p of
        Some msg \<Rightarrow> Inl (OSError msg)
      | None \<Rightarrow> Inr (fs w p \<noteq> None))"

definition path_exists :: "world \<Rightarrow> path \<Rightarrow> bool" where
  "path_exists w p = (pathlib_exists w p = Inr True)"

definition is_file :: "world \<Rightarrow> path \<Rightarrow> bool" where
  "is_file w p = (case fs w p of Some (File b) \<Rightarrow> True | _ \<Rightarrow> False)"

definition is_dir :: "world \<Rightarrow> path \<Rightarrow> bool" where
  "is_dir w p = (fs w p = Some Dir)"

definition quoted :: "string \<Rightarrow> string" where
  "quoted s = [CHR 0x27] @ s @ [CHR 0x27]"

definition write_text :: "path \<Rightarrow> string \<Rightarrow> world \<Rightarrow> error + world" where
  \<comment> \<open>\<^verbatim>\<open>path.write_text(text, encoding='utf-8')\<close>\<close>
  "write_text p text w =
     (case fs w p of
        Some Dir \<Rightarrow> Inl (OSError (''[Errno 21] Is a directory: '' @ quoted p))
      | Some Special \<Rightarrow> Inr w
      | Some (StatError msg) \<Rightarrow> Inl (OSError msg)
      | Some (File b) \<Rightarrow> Inr (w\<lparr>fs := (fs w)(p \<mapsto> File (utf8 text))\<rparr>)
      | None \<Rightarrow>
          (case fs w (path_parent p) of
             Some Dir \<Rightarrow> Inr (w\<lparr>fs := (fs w)(p \<mapsto> File (utf8 text))\<rparr>)
           | Some (StatError msg) \<Rightarrow> Inl (OSError msg)
           | Some n \<Rightarrow> Inl (OSError (''[Errno 20] Not a directory: '' @ quoted p))
           | None \<Rightarrow>
               Inl (FileNotFoundError (''[Errno 2] No such file or directory: '' @ quoted p))))"

section \<open>PDFConverter\<close>

text \<open>
  The converter object holds one field, \<^verbatim>\<open>self.method\<close>; it is the argument
  \<open>self_method\<close> of the functions below. Every function takes the world and
  returns the new one next to its result; a raised exception is \<open>Inl\<close>.
\<close>

fun pypdf2_pages :: "(string + string) list \<Rightarrow> string list \<Rightarrow> string + string list" where
  \<comment> \<open>the loop of lines 24-26: \<^verbatim>\<open>text.append(page.extract_text())\<close>\<close>
  "pypdf2_pages [] text = Inr text"
| "pypdf2_pages (Inl e # pages) text = Inl e"
| "pypdf2_pages (Inr page_text # pages) text = pypdf2_pages pages (text @ [page_text])"

definition extract_with_pypdf2 :: "env \<Rightarrow> path \<Rightarrow> world \<Rightarrow> (error + string) \<times> world" where
  "extract_with_pypdf2 E pdf_path w =
     (let w' = w\<lparr>calls := calls w @ [PyPDF2]\<rparr> in
      case PdfReader E (fs w) pdf_path of
        Inl e \<Rightarrow> (Inl (Exception (''PyPDF2 extraction failed: '' @ e)), w')
      | Inr pages \<Rightarrow>
          (case pypdf2_pages pages [] of
             Inl e \<Rightarrow> (Inl (Exception (''PyPDF2 extraction failed: '' @ e)), w')
           | Inr text \<Rightarrow> (Inr (join [CHR 0x0A] text), w')))"

fun pdfplumber_pages :: "(string + string option) list \<Rightarrow> string list \<Rightarrow> string + string list" where
  \<comment> \<open>the loop of lines 36-39: \<^verbatim>\<open>if page_text: text.append(page_text)\<close>\<close>
  "pdfplumber_pages [] text = Inr text"
| "pdfplumber_pages (Inl e # pages) text = Inl e"
| "pdfplumber_pages (Inr None # pages) text = pdfplumber_pages pages text"
| "pdfplumber_pages (Inr (Some page_text) # pages) text =
     (if page_text \<noteq> [] then pdfplumber_pages pages (text @ [page_text])
      else pdfplumber_pages pages text)"

definition extract_with_pdfplumber :: "env \<Rightarrow> path \<Rightarrow> world \<Rightarrow> (error + string) \<times> world" where
  "extract_with_pdfplumber E pdf_path w =
     (let w' = w\<lparr>calls := calls w @ [Pdfplumber]\<rparr> in
      case pdfplumber_open E (fs w) pdf_path of
        Inl e \<Rightarrow> (Inl (Exception (''pdfplumber extraction failed: '' @ e)), w')
      | Inr pages \<Rightarrow>
          (case pdfplumber_pages pages [] of
             Inl e \<Rightarrow> (Inl (Exception (''pdfplumber extraction failed: '' @ e)), w')
           | Inr text \<Rightarrow> (Inr (join [CHR 0x0A] text), w')))"

definition page_texts :: "string option list \<Rightarrow> string list" where
  \<comment> \<open>what the loop of lines 36-39 keeps of a run of pages: the texts that are neither
      \<^verbatim>\<open>None\<close> nor empty\<close>
  "page_texts os = filter (\<lambda>t. t \<noteq> []) (map (\<lambda>x. case x of None \<Rightarrow> [] | Some t \<Rightarrow> t) os)"

text \<open>
  \<^verbatim>\<open>convert\<close>, lines 45-63. In the last branch the call of line 60 stands inside
  the \<^verbatim>\<open>try\<close> block, so an exception it raises is caught by the bare
  \<^verbatim>\<open>except:\<close> of line 62 as well, and line 63 runs. An \<^verbatim>\<open>OSError\<close> that
  \<^verbatim>\<open>pdf_path.exists()\<close> lets through leaves \<^verbatim>\<open>convert\<close> at line 46.
\<close>

definition convert :: "env \<Rightarrow> string \<Rightarrow> path \<Rightarrow> world \<Rightarrow> (error + string) \<times> world" where
  "convert E self_method pdf_path w =
     (case pathlib_exists w pdf_path of
        Inl e \<Rightarrow> (Inl e, w)
      | Inr found \<Rightarrow>
          if \<not> found
          then (Inl (FileNotFoundError (''PDF file not found: '' @ pdf_path)), w)
          else if \<not> lower (path_suffix pdf_path) = ''.pdf''
          then (Inl (ValueError (''File must be a PDF: '' @ pdf_path)), w)
          else if self_method = ''pypdf2'' then extract_with_pypdf2 E pdf_path w
          else if self_method = ''pdfplumber'' then extract_with_pdfplumber E pdf_path w
          else
            (case extract_with_pdfplumber E pdf_path w of
               (Inl e, w1) \<Rightarrow> extract_with_pypdf2 E pdf_path w1
             | (Inr text, w1) \<Rightarrow>
                 if strip text = []
                 then (case extract_with_pypdf2 E pdf_path w1 of
                         (Inl e, w2) \<Rightarrow> extract_with_pypdf2 E pdf_path w2
                       | (Inr text', w2) \<Rightarrow> (Inr text', w2))
                 else (Inr text, w1)))"

subsection \<open>batch\_convert\<close>

text \<open>
  The report is a Python \<^verbatim>\<open>dict\<close> keyed by \<^verbatim>\<open>str(pdf_path)\<close>: an association
  list in insertion order, where assigning to a key that is present replaces
  its value in place. An entry is one of the three dictionaries that lines 75,
  77 and 80 build; \<open>status\<close> reads its \<^verbatim>\<open>'status'\<close> field.
\<close>

datatype entry =
    Success_output string
  | Success_text string
  | Error_entry string

fun status :: "entry \<Rightarrow> string" where
  "status (Success_output output_path) = ''success''"
| "status (Success_text text) = ''success''"
| "status (Error_entry e) = ''error''"

fun dict_set :: "('k \<times> 'v) list \<Rightarrow> 'k \<Rightarrow> 'v \<Rightarrow> ('k \<times> 'v) list" where
  "dict_set [] k v = [(k, v)]"
| "dict_set ((k', v') # d) k v =
     (if k' = k then (k, v) # d else (k', v') # dict_set d k v)"

fun batch_loop ::
  "env \<Rightarrow> string \<Rightarrow> path option \<Rightarrow> path list \<Rightarrow> (string \<times> entry) list \<Rightarrow> world
     \<Rightarrow> (string \<times> entry) list \<times> world" where
  "batch_loop E self_method output_dir [] results w = (results, w)"
| "batch_loop E self_method output_dir (pdf_path # pdf_paths) results w =
     (case convert E self_method pdf_path w of
        (Inl e, w1) \<Rightarrow>
          batch_loop E self_method output_dir pdf_paths
            (dict_set results pdf_path (Error_entry (str_of e))) w1
      | (Inr text, w1) \<Rightarrow>
          (case output_dir of
             Some d \<Rightarrow>
               (let output_path = path_div d (path_stem pdf_path @ ''.txt'') in
                case write_text output_path text w1 of
                  Inl e \<Rightarrow>
                    batch_loop E self_method output_dir pdf_paths
                      (dict_set results pdf_path (Error_entry (str_of e))) w1
                | Inr w2 \<Rightarrow>
                    batch_loop E self_method output_dir pdf_paths
                      (dict_set results pdf_path (Success_output output_path)) w2)
           | None \<Rightarrow>
               batch_loop E self_method output_dir pdf_paths
                 (dict_set results pdf_path
                    (Success_text (if length text > 200 then take 200 text @ ''...'' else text)))
                 w1))"

definition batch_convert ::
  "env \<Rightarrow> string \<Rightarrow> path list \<Rightarrow> path option \<Rightarrow> world \<Rightarrow> (string \<times> entry) list \<times> world" where
  "batch_convert E self_method pdf_paths output_dir w =
     batch_loop E self_method output_dir pdf_paths [] w"

definition batch_item :: "env \<Rightarrow> string \<Rightarrow> path option \<Rightarrow> path \<Rightarrow> world \<Rightarrow> entry \<times> world" where
  \<comment> \<open>one turn of the loop: what \<^verbatim>\<open>batch_convert\<close> makes of a single path\<close>
  "batch_item E self_method output_dir pdf_path w =
     (case batch_loop E self_method output_dir [pdf_path] [] w of
        (results, w') \<Rightarrow> (snd (hd results), w'))"


section \<open>The command line\<close>

text \<open>
  \<^verbatim>\<open>main\<close>, lines 92-149. Its body ends in one of three ways: it returns, it
  calls \<^verbatim>\<open>sys.exit(n)\<close>, or an exception leaves it uncaught: that of
  \<^verbatim>\<open>output_dir.mkdir\<close> of line 130, which stands outside every \<^verbatim>\<open>try\<close>, and the
  \<^verbatim>\<open>OSError\<close> that \<^verbatim>\<open>input_path.is_file()\<close> of line 96 lets through as
  \<^verbatim>\<open>exists()\<close> does.
\<close>

datatype outcome = Returned | SysExit nat | Raised error

fun exit_code :: "outcome \<Rightarrow> nat" where
  \<comment> \<open>the status of the process: 0 after a return, 1 after an uncaught exception\<close>
  "exit_code Returned = 0"
| "exit_code (SysExit n) = n"
| "exit_code (Raised e) = 1"

definition click_echo :: "echo \<Rightarrow> world \<Rightarrow> world" where
  "click_echo msg w = w\<lparr>console := console w @ [msg]\<rparr>"

definition output_given :: "string option \<Rightarrow> bool" where
  \<comment> \<open>\<^verbatim>\<open>if output:\<close> on an optional string\<close>
  "output_given output = (case output of None \<Rightarrow> False | Some s \<Rightarrow> s \<noteq> [])"

definition success_count :: "(string \<times> entry) list \<Rightarrow> nat" where
  "success_count results = length (filter (\<lambda>r. status r = ''success'') (map snd results))"

definition error_count :: "(string \<times> entry) list \<Rightarrow> nat" where
  "error_count results = length (filter (\<lambda>r. status r = ''error'') (map snd results))"

fun error_items :: "(string \<times> entry) list \<Rightarrow> echo list" where
  \<comment> \<open>the loop of lines 143-145\<close>
  "error_items [] = []"
| "error_items ((p, Error_entry e) # results) = ErrorItem p e # error_items results"
| "error_items ((p, r) # results) = error_items results"

definition main ::
  "env \<Rightarrow> string \<Rightarrow> string option \<Rightarrow> string \<Rightarrow> bool \<Rightarrow> bool \<Rightarrow> world \<Rightarrow> outcome \<times> world" where
  "main E input_path output self_method recursive verbose w =
     (case stat_error w input_path of
        Some msg \<Rightarrow> (Raised (OSError msg), w)
      | None \<Rightarrow>
      if is_file w input_path then
        (let w0 = (if verbose then click_echo (Converting input_path) w else w) in
         case convert E self_method input_path w0 of
           (Inl e, w1) \<Rightarrow> (SysExit 1, click_echo (ErrorLine (str_of e)) w1)
         | (Inr text, w1) \<Rightarrow>
             if output_given output then
               (case write_text (the output) text w1 of
                  Inl e \<Rightarrow> (SysExit 1, click_echo (ErrorLine (str_of e)) w1)
                | Inr w2 \<Rightarrow> (Returned, click_echo (Converted (the output)) w2))
             else (Returned, click_echo (Extracted text) w1))
      else if is_dir w input_path then
        (let pattern = (if recursive then ''**/*.pdf'' else ''*.pdf'');
             pdf_files = glob E (fs w) input_path pattern in
         if pdf_files = [] then (SysExit 0, click_echo (NoFiles input_path) w)
         else
           (let w1 = click_echo (Found (length pdf_files)) w in
            case (if output_given output
                  then (case mkdir E (fs w1) (the output) of
                          Inl e \<Rightarrow> Inl e
                        | Inr f \<Rightarrow> Inr (Some (the output), w1\<lparr>fs := f\<rparr>))
                  else Inr (None, w1)) of
              Inl e \<Rightarrow> (Raised e, w1)
            | Inr (output_dir, w2) \<Rightarrow>
                (case batch_convert E self_method pdf_files output_dir w2 of
                   (results, w3) \<Rightarrow>
                     (let w4 = click_echo (Summary (success_count results) (length pdf_files)) w3 in
                      if error_count results > 0 then
                        (let w5 = click_echo (Failed (error_count results)) w4 in
                         if verbose
                         then (Returned, w5\<lparr>console := console w5 @ ErrorsHeader # error_items results\<rparr>)
                         else (Returned, w5))
                      else (Returned, w4)))))
      else (SysExit 1, click_echo (InvalidPath input_path) w))"

text \<open>
  The decorators of lines 85-91 wrap \<^verbatim>\<open>main\<close> into a click command, and line
  153 runs that command. Before the body runs, click checks the arguments:
  \<^verbatim>\<open>click.Path(exists=True)\<close> refuses an input path that does not exist and
  \<^verbatim>\<open>click.Choice\<close> refuses a method outside its list. A refused argument is a
  usage error, which click reports and ends with exit status 2. Otherwise the
  process ends with the status of the body.
\<close>

definition click_main ::
  "env \<Rightarrow> string \<Rightarrow> string option \<Rightarrow> string \<Rightarrow> bool \<Rightarrow> bool \<Rightarrow> world \<Rightarrow> nat \<times> world" where
  "click_main E input_path output self_method recursive verbose w =
     (if \<not> path_exists w input_path then (2, click_echo (BadParameter input_path) w)
      else if self_method \<notin> set [''auto'', ''pypdf2'', ''pdfplumber'']
      then (2, click_echo (BadParameter self_method) w)
      else (case main E input_path output self_method recursive verbose w of
              (r, w') \<Rightarrow> (exit_code r, w')))"

section \<open>A sample environment\<close>

text \<open>
  A directory \<^verbatim>\<open>docs\<close> with six PDF files and a subdirectory, used to run the
  model: \<^verbatim>\<open>a.pdf\<close> is read by both libraries, \<^verbatim>\<open>blank.pdf\<close> has no text in
  either, \<^verbatim>\<open>odd.pdf\<close> is read by PyPDF2 only, \<^verbatim>\<open>bad.pdf\<close> by neither,
  \<^verbatim>\<open>scan.pdf\<close> gives pdfplumber no text and makes PyPDF2 raise, and
  \<^verbatim>\<open>image.pdf\<close> gives pdfplumber one space and PyPDF2 a line of text. A file
  name of more than 255 characters makes \<^verbatim>\<open>os.stat\<close> fail with ENAMETOOLONG.
\<close>

definition sample_pdf :: "path \<Rightarrow> bool" where
  "sample_pdf p = (p \<in> set [''docs/a.pdf'', ''docs/blank.pdf'', ''docs/odd.pdf'',
     ''docs/bad.pdf'', ''docs/scan.pdf'', ''docs/sub/a.pdf'', ''docs/image.pdf''])"

definition sample_env :: env where
  "sample_env = \<lparr>
     PdfReader = (\<lambda>f p.
        if p = ''docs/a.pdf'' then Inr [Inr ''one'', Inr '''', Inr ''three'']
        else if p = ''docs/sub/a.pdf'' then Inr [Inr ''other'']
        else if p = ''docs/blank.pdf'' then Inr [Inr '''']
        else if p = ''docs/odd.pdf'' then Inr [Inr ''recovered'']
        else if p = ''docs/image.pdf'' then Inr [Inr ''real text'']
        else Inl ''EOF marker not found''),
     pdfplumber_open = (\<lambda>f p.
        if p = ''docs/a.pdf''
        then Inr [Inr (Some ''One''), Inr None, Inr (Some ''''), Inr (Some ''Three'')]
        else if p = ''docs/sub/a.pdf'' then Inr [Inr (Some ''Other'')]
        else if p = ''docs/blank.pdf'' \<or> p = ''docs/scan.pdf'' then Inr [Inr None, Inr (Some '''')]
        else if p = ''docs/image.pdf'' then Inr [Inr (Some '' '')]
        else Inl ''No /Root object''),
     glob = (\<lambda>f d pattern.
        if d = ''docs'' \<and> pattern = ''*.pdf'' then [''docs/a.pdf'', ''docs/bad.pdf'']
        else if d = ''docs'' \<and> pattern = ''**/*.pdf''
        then [''docs/a.pdf'', ''docs/bad.pdf'', ''docs/sub/a.pdf'']
        else []),
     mkdir = (\<lambda>f d. case f d of
        None \<Rightarrow> Inr (f(d \<mapsto> Dir))
      | Some Dir \<Rightarrow> Inr f
      | Some n \<Rightarrow> Inl (OSError (''[Errno 17] File exists: '' @ quoted d))) \<rparr>"

definition sample_world :: world where
  "sample_world = \<lparr>
     fs = (\<lambda>p. if length (path_name p) > 255
                then Some (StatError (''[Errno 36] File name too long: '' @ quoted p))
                else if sample_pdf p then Some (File ''%PDF'')
                else if p = ''notes.txt'' then Some (File ''hello'')
                else if p \<in> set [''.'', ''docs'', ''docs/sub'', ''empty'', ''out''] then Some Dir
                else if p = ''/dev/null'' then Some Special
                else None),
     calls = [],
     console = [] \<rparr>"

section \<open>Properties of convert\<close>

lemma path_exists_iff:
  "path_exists w p \<longleftrightarrow> stat_error w p = None \<and> fs w p \<noteq> None"
  by (simp add: path_exists_def pathlib_exists_def split: option.splits)

lemma path_exists_stat [simp]: "path_exists w p \<Longrightarrow> stat_error w p = None"
  by (simp add: path_exists_iff)

lemma path_exists_pathlib [simp]: "path_exists w p \<Longrightarrow> pathlib_exists w p = Inr True"
  by (simp add: path_exists_def)

lemma is_file_stat [simp]: "is_file w p \<Longrightarrow> stat_error w p = None"
  by (auto simp add: is_file_def stat_error_def split: option.splits node.splits)

lemma is_dir_stat [simp]: "is_dir w p \<Longrightarrow> stat_error w p = None"
  by (simp add: is_dir_def stat_error_def)

lemma stat_error_fs_only: "fs w' = fs w \<Longrightarrow> stat_error w' p = stat_error w p"
  by (simp add: stat_error_def)

lemma pathlib_exists_fs_only: "fs w' = fs w \<Longrightarrow> pathlib_exists w' p = pathlib_exists w p"
  using stat_error_fs_only [of w' w p] by (simp add: pathlib_exists_def split: option.splits)

lemma fs_extract_with_pypdf2 [simp]: "fs (snd (extract_with_pypdf2 E p w)) = fs w"
  by (simp add: extract_with_pypdf2_def Let_def split: sum.splits)

lemma calls_extract_with_pypdf2 [simp]:
  "calls (snd (extract_with_pypdf2 E p w)) = calls w @ [PyPDF2]"
  by (simp add: extract_with_pypdf2_def Let_def split: sum.splits)

lemma fs_extract_with_pdfplumber [simp]: "fs (snd (extract_with_pdfplumber E p w)) = fs w"
  by (simp add: extract_with_pdfplumber_def Let_def split: sum.splits)

lemma calls_extract_with_pdfplumber [simp]:
  "calls (snd (extract_with_pdfplumber E p w)) = calls w @ [Pdfplumber]"
  by (simp add: extract_with_pdfplumber_def Let_def split: sum.splits)

lemma extract_with_pypdf2_fs_only:
  "fs w' = fs w \<Longrightarrow> fst (extract_with_pypdf2 E p w') = fst (extract_with_pypdf2 E p w)"
  by (simp add: extract_with_pypdf2_def Let_def split: sum.splits)

lemma pypdf2_failure_names_backend:
  "fst (extract_with_pypdf2 E p w) = Inl x \<Longrightarrow> \<exists>d. x = Exception (''PyPDF2 extraction failed: '' @ d)"
  by (auto simp add: extract_with_pypdf2_def Let_def split: sum.splits)

lemma all_dropWhile_iff: "(\<forall>x\<in>set (dropWhile P s). P x) \<longleftrightarrow> (\<forall>x\<in>set s. P x)"
proof
  assume a: "\<forall>x\<in>set (dropWhile P s). P x"
  have "dropWhile P s = []"
  proof (rule ccontr)
    assume ne: "dropWhile P s \<noteq> []"
    then have "\<not> P (hd (dropWhile P s))" by (rule hd_dropWhile)
    moreover have "hd (dropWhile P s) \<in> set (dropWhile P s)" using ne by simp
    ultimately show False using a by blast
  qed
  then show "\<forall>x\<in>set s. P x" by (simp add: dropWhile_eq_Nil_conv)
next
  assume "\<forall>x\<in>set s. P x"
  then show "\<forall>x\<in>set (dropWhile P s). P x" by (meson set_dropWhileD)
qed

lemma strip_empty_iff: "strip s = [] \<longleftrightarrow> (\<forall>c\<in>set s. isspace c)"
  by (simp add: strip_def dropWhile_eq_Nil_conv all_dropWhile_iff)

text \<open>
  Claim C1. On a path that exists and has the suffix \<^verbatim>\<open>.pdf\<close>, when
  \<^verbatim>\<open>extract_with_pdfplumber\<close> raises, \<^verbatim>\<open>convert\<close> in \<^verbatim>\<open>'auto'\<close> mode returns what
  \<^verbatim>\<open>convert\<close> in \<^verbatim>\<open>'pypdf2'\<close> mode returns on the same path: the text of
  \<^verbatim>\<open>extract_with_pypdf2\<close> when it succeeds, and its failure, which names PyPDF2
  and not pdfplumber, when it raises too.
\<close>
theorem auto_falls_back_when_pdfplumber_raises:
  assumes "path_exists w p" and "lower (path_suffix p) = ''.pdf''"
      and "fst (extract_with_pdfplumber E p w) = Inl e"
  shows "fst (convert E ''auto'' p w) = fst (convert E ''pypdf2'' p w)
       \<and> fst (convert E ''auto'' p w) = fst (extract_with_pypdf2 E p w)
       \<and> (\<forall>x. fst (convert E ''auto'' p w) = Inl x \<longrightarrow>
            (\<exists>d. x = Exception (''PyPDF2 extraction failed: '' @ d)))"
proof -
  obtain w1 where b: "extract_with_pdfplumber E p w = (Inl e, w1)"
    using assms(3) by (cases "extract_with_pdfplumber E p w") simp
  have "fs w1 = fs w"
    using fs_extract_with_pdfplumber [of E p w] b by simp
  then have same: "fst (extract_with_pypdf2 E p w1) = fst (extract_with_pypdf2 E p w)"
    by (rule extract_with_pypdf2_fs_only)
  have auto: "convert E ''auto'' p w = extract_with_pypdf2 E p w1"
    using assms(1,2) b by (simp add: convert_def)
  have direct: "convert E ''pypdf2'' p w = extract_with_pypdf2 E p w"
    using assms(1,2) by (simp add: convert_def)
  show ?thesis
    using auto direct same pypdf2_failure_names_backend [of E p w] by simp
qed


lemma pdfplumber_pages_no_text:
  "\<forall>pg\<in>set pages. pg = Inr None \<or> pg = Inr (Some []) \<Longrightarrow> pdfplumber_pages pages acc = Inr acc"
  by (induction pages acc rule: pdfplumber_pages.induct) auto

lemma convert_pypdf2:
  "path_exists w p \<Longrightarrow> lower (path_suffix p) = ''.pdf'' \<Longrightarrow>
   convert E ''pypdf2'' p w = extract_with_pypdf2 E p w"
  by (simp add: convert_def)

lemma convert_pdfplumber:
  "path_exists w p \<Longrightarrow> lower (path_suffix p) = ''.pdf'' \<Longrightarrow>
   convert E ''pdfplumber'' p w = extract_with_pdfplumber E p w"
  by (simp add: convert_def)

lemma convert_auto_blank:
  assumes "path_exists w p" and "lower (path_suffix p) = ''.pdf''"
      and "fst (extract_with_pdfplumber E p w) = Inr text" and "strip text = []"
  shows "fst (convert E ''auto'' p w) = fst (extract_with_pypdf2 E p w)"
    and "count_list (calls (snd (convert E ''auto'' p w))) Pdfplumber
           = count_list (calls w) Pdfplumber + 1"
proof -
  obtain w1 where b: "extract_with_pdfplumber E p w = (Inr text, w1)"
    using assms(3) by (cases "extract_with_pdfplumber E p w") simp
  have w1: "fs w1 = fs w" "calls w1 = calls w @ [Pdfplumber]"
    using fs_extract_with_pdfplumber [of E p w] calls_extract_with_pdfplumber [of E p w] b
    by simp_all
  obtain r w2 where a: "extract_with_pypdf2 E p w1 = (r, w2)"
    by (cases "extract_with_pypdf2 E p w1")
  have w2: "fs w2 = fs w" "calls w2 = calls w @ [Pdfplumber, PyPDF2]"
    using fs_extract_with_pypdf2 [of E p w1] calls_extract_with_pypdf2 [of E p w1] a w1
    by simp_all
  have r: "r = fst (extract_with_pypdf2 E p w)"
    using extract_with_pypdf2_fs_only [OF w1(1), of E p] a by simp
  have r2: "fst (extract_with_pypdf2 E p w2) = fst (extract_with_pypdf2 E p w)"
    using w2(1) by (rule extract_with_pypdf2_fs_only)
  show "fst (convert E ''auto'' p w) = fst (extract_with_pypdf2 E p w)"
  proof (cases r)
    case (Inl e)
    then have "convert E ''auto'' p w = extract_with_pypdf2 E p w2"
      using assms(1,2,4) a b by (simp add: convert_def)
    with r2 show ?thesis by simp
  next
    case (Inr t)
    then have "convert E ''auto'' p w = (Inr t, w2)"
      using assms(1,2,4) a b by (simp add: convert_def)
    with r Inr show ?thesis by simp
  qed
  show "count_list (calls (snd (convert E ''auto'' p w))) Pdfplumber
           = count_list (calls w) Pdfplumber + 1"
  proof (cases r)
    case (Inl e)
    then have "convert E ''auto'' p w = extract_with_pypdf2 E p w2"
      using assms(1,2,4) a b by (simp add: convert_def)
    then show ?thesis
      using calls_extract_with_pypdf2 [of E p w2] w2 by simp
  next
    case (Inr t)
    then have "convert E ''auto'' p w = (Inr t, w2)"
      using assms(1,2,4) a b by (simp add: convert_def)
    then show ?thesis using w2 by simp
  qed
qed

lemma convert_auto_calls:
  assumes "path_exists w p" and "lower (path_suffix p) = ''.pdf''"
  shows "calls (snd (convert E ''auto'' p w)) = calls w @
     (case fst (extract_with_pdfplumber E p w) of
        Inl e \<Rightarrow> [Pdfplumber, PyPDF2]
      | Inr t \<Rightarrow>
          if strip t = []
          then (case fst (extract_with_pypdf2 E p w) of
                  Inl e \<Rightarrow> [Pdfplumber, PyPDF2, PyPDF2]
                | Inr t' \<Rightarrow> [Pdfplumber, PyPDF2])
          else [Pdfplumber])"
proof -
  obtain b w1 where b: "extract_with_pdfplumber E p w = (b, w1)"
    by (cases "extract_with_pdfplumber E p w")
  have w1: "fs w1 = fs w" "calls w1 = calls w @ [Pdfplumber]"
    using fs_extract_with_pdfplumber [of E p w] calls_extract_with_pdfplumber [of E p w] b
    by simp_all
  obtain r w2 where a: "extract_with_pypdf2 E p w1 = (r, w2)"
    by (cases "extract_with_pypdf2 E p w1")
  have w2: "calls w2 = calls w @ [Pdfplumber, PyPDF2]"
    using calls_extract_with_pypdf2 [of E p w1] a w1 by simp
  have r: "fst (extract_with_pypdf2 E p w) = r"
    using extract_with_pypdf2_fs_only [OF w1(1), of E p] a by simp
  show ?thesis
  proof (cases b)
    case (Inl e)
    then show ?thesis
      using assms a b w2 by (simp add: convert_def)
  next
    case (Inr t)
    show ?thesis
    proof (cases "strip t = []")
      case False
      then show ?thesis using assms b Inr w1 by (simp add: convert_def)
    next
      case True
      show ?thesis
      proof (cases r)
        case (Inl e)
        then have "convert E ''auto'' p w = extract_with_pypdf2 E p w2"
          using assms a b True \<open>b = Inr t\<close> by (simp add: convert_def)
        then show ?thesis
          using calls_extract_with_pypdf2 [of E p w2] w2 b r True Inl \<open>b = Inr t\<close> by simp
      next
        case (Inr t')
        then have "convert E ''auto'' p w = (Inr t', w2)"
          using assms a b True \<open>b = Inr t\<close> by (simp add: convert_def)
        then show ?thesis
          using w2 b r True Inr \<open>b = Inr t\<close> by simp
      qed
    qed
  qed
qed

text \<open>
  Claim C2. On a path that exists and has the suffix \<^verbatim>\<open>.pdf\<close>, when
  \<^verbatim>\<open>extract_with_pdfplumber\<close> returns a string that is empty or all whitespace,
  \<^verbatim>\<open>convert\<close> in \<^verbatim>\<open>'auto'\<close> mode returns what \<^verbatim>\<open>convert\<close> in \<^verbatim>\<open>'pypdf2'\<close> mode
  returns, which is the result of \<^verbatim>\<open>extract_with_pypdf2\<close>, success or failure;
  \<^verbatim>\<open>extract_with_pdfplumber\<close> has been entered exactly once, first, and every
  later call is one of \<^verbatim>\<open>extract_with_pypdf2\<close>. In particular a PDF none of
  whose pages has text for pdfplumber yields the PyPDF2 result.
\<close>
theorem auto_falls_back_when_pdfplumber_blank:
  assumes "path_exists w p" and "lower (path_suffix p) = ''.pdf''"
  shows "(\<forall>text. fst (extract_with_pdfplumber E p w) = Inr text \<and> (\<forall>c\<in>set text. isspace c) \<longrightarrow>
            fst (convert E ''auto'' p w) = fst (convert E ''pypdf2'' p w)
          \<and> fst (convert E ''auto'' p w) = fst (extract_with_pypdf2 E p w)
          \<and> count_list (calls (snd (convert E ''auto'' p w))) Pdfplumber
              = count_list (calls w) Pdfplumber + 1
          \<and> calls (snd (convert E ''auto'' p w)) = calls w @
              (case fst (extract_with_pypdf2 E p w) of
                 Inl e \<Rightarrow> [Pdfplumber, PyPDF2, PyPDF2]
               | Inr t \<Rightarrow> [Pdfplumber, PyPDF2]))
       \<and> (\<forall>pages. pdfplumber_open E (fs w) p = Inr pages
                 \<and> (\<forall>pg\<in>set pages. pg = Inr None \<or> pg = Inr (Some [])) \<longrightarrow>
            fst (convert E ''auto'' p w) = fst (convert E ''pypdf2'' p w)
          \<and> fst (convert E ''auto'' p w) = fst (extract_with_pypdf2 E p w))"
proof (intro conjI allI impI)
  fix t
  assume h: "fst (extract_with_pdfplumber E p w) = Inr t \<and> (\<forall>c\<in>set t. isspace c)"
  then have s: "strip t = []" by (simp add: strip_empty_iff)
  show "fst (convert E ''auto'' p w) = fst (convert E ''pypdf2'' p w)"
    using convert_auto_blank(1) [OF assms _ s] h convert_pypdf2 [OF assms] by simp
  show "fst (convert E ''auto'' p w) = fst (extract_with_pypdf2 E p w)"
    using convert_auto_blank(1) [OF assms _ s] h by simp
  show "count_list (calls (snd (convert E ''auto'' p w))) Pdfplumber
          = count_list (calls w) Pdfplumber + 1"
    using convert_auto_blank(2) [OF assms _ s] h by simp
  show "calls (snd (convert E ''auto'' p w)) = calls w @
              (case fst (extract_with_pypdf2 E p w) of
                 Inl e \<Rightarrow> [Pdfplumber, PyPDF2, PyPDF2]
               | Inr t \<Rightarrow> [Pdfplumber, PyPDF2])"
    using convert_auto_calls [OF assms, of E] h s by simp
next
  fix pages
  assume h: "pdfplumber_open E (fs w) p = Inr pages
               \<and> (\<forall>pg\<in>set pages. pg = Inr None \<or> pg = Inr (Some []))"
  then have "pdfplumber_pages pages [] = Inr []"
    using pdfplumber_pages_no_text [of pages "[]"] by simp
  with h have b: "fst (extract_with_pdfplumber E p w) = Inr []"
    by (simp add: extract_with_pdfplumber_def Let_def)
  have s: "strip [] = []" by (simp add: strip_def)
  show "fst (convert E ''auto'' p w) = fst (convert E ''pypdf2'' p w)"
    using convert_auto_blank(1) [OF assms b s] convert_pypdf2 [OF assms] by simp
  show "fst (convert E ''auto'' p w) = fst (extract_with_pypdf2 E p w)"
    using convert_auto_blank(1) [OF assms b s] by simp
qed

text \<open>
  Claim C4, as amended. For every method and every path on which
  \<^verbatim>\<open>pdf_path.exists()\<close> returns, \<^verbatim>\<open>convert\<close> raises \<^verbatim>\<open>FileNotFoundError\<close> when
  nothing is at the path, whatever its suffix, and \<^verbatim>\<open>ValueError\<close> when the path
  exists and its lower-cased suffix is not \<^verbatim>\<open>.pdf\<close>. When \<^verbatim>\<open>exists()\<close> itself
  raises an \<^verbatim>\<open>OSError\<close>, that error leaves \<^verbatim>\<open>convert\<close> as it is. In all three
  cases the world is returned as it was, so no backend extraction function has
  been entered.
\<close>
theorem invalid_input_raises_before_any_backend:
  "(fs w p = None \<longrightarrow>
      convert E self_method p w = (Inl (FileNotFoundError (''PDF file not found: '' @ p)), w))
   \<and> (path_exists w p \<and> lower (path_suffix p) \<noteq> ''.pdf'' \<longrightarrow>
      convert E self_method p w = (Inl (ValueError (''File must be a PDF: '' @ p)), w))
   \<and> (\<forall>msg. fs w p = Some (StatError msg) \<longrightarrow>
      convert E self_method p w = (Inl (OSError msg), w))
   \<and> (\<not> path_exists w p \<or> lower (path_suffix p) \<noteq> ''.pdf'' \<longrightarrow>
      calls (snd (convert E self_method p w)) = calls w)"
proof (intro conjI impI allI)
  assume "fs w p = None"
  then have "pathlib_exists w p = Inr False"
    by (simp add: pathlib_exists_def stat_error_def)
  then show "convert E self_method p w
      = (Inl (FileNotFoundError (''PDF file not found: '' @ p)), w)"
    by (simp add: convert_def)
next
  assume "path_exists w p \<and> lower (path_suffix p) \<noteq> ''.pdf''"
  then show "convert E self_method p w = (Inl (ValueError (''File must be a PDF: '' @ p)), w)"
    by (simp add: convert_def)
next
  fix msg
  assume "fs w p = Some (StatError msg)"
  then have "pathlib_exists w p = Inl (OSError msg)"
    by (simp add: pathlib_exists_def stat_error_def)
  then show "convert E self_method p w = (Inl (OSError msg), w)"
    by (simp add: convert_def)
next
  assume h: "\<not> path_exists w p \<or> lower (path_suffix p) \<noteq> ''.pdf''"
  show "calls (snd (convert E self_method p w)) = calls w"
  proof (cases "pathlib_exists w p")
    case (Inl e)
    then show ?thesis by (simp add: convert_def)
  next
    case (Inr found)
    then show ?thesis using h by (cases found) (simp_all add: convert_def path_exists_def)
  qed
qed

text \<open>
  Claim C4 as stated, for every path, fails on a path whose name is longer
  than the file system allows: nothing is there, \<^verbatim>\<open>exists()\<close> raises the
  \<^verbatim>\<open>OSError\<close> of \<^verbatim>\<open>os.stat\<close>, and \<^verbatim>\<open>convert\<close> raises that error, not
  \<^verbatim>\<open>FileNotFoundError\<close>.
\<close>
theorem invalid_input_long_name_counterexample:
  "length (replicate 300 (CHR ''a'') @ ''.pdf'') = 304
   \<and> \<not> path_exists sample_world (replicate 300 (CHR ''a'') @ ''.pdf'')
   \<and> \<not> is_file sample_world (replicate 300 (CHR ''a'') @ ''.pdf'')
   \<and> fst (convert sample_env ''auto'' (replicate 300 (CHR ''a'') @ ''.pdf'') sample_world)
       = Inl (OSError (''[Errno 36] File name too long: ''
                        @ quoted (replicate 300 (CHR ''a'') @ ''.pdf'')))"
  by code_simp

lemma pypdf2_pages_all: "pypdf2_pages (map Inr ts) acc = Inr (acc @ ts)"
  by (induction ts arbitrary: acc) simp_all

lemma pypdf2_pages_raise: "pypdf2_pages (map Inr ts @ Inl d # rest) acc = Inl d"
  by (induction ts arbitrary: acc) simp_all

text \<open>
  Claim C5. On a path that exists and has the suffix \<^verbatim>\<open>.pdf\<close>, \<^verbatim>\<open>convert\<close> in
  \<^verbatim>\<open>'pypdf2'\<close> mode returns the texts of all pages, empty ones included, in page
  order and joined by one newline; when the library raises, on opening or on
  some page, the failure is an \<^verbatim>\<open>Exception\<close> whose message names PyPDF2 and
  carries the library's message.
\<close>
theorem pypdf2_joins_every_page:
  assumes "path_exists w p" and "lower (path_suffix p) = ''.pdf''"
  shows "(\<forall>ts. PdfReader E (fs w) p = Inr (map Inr ts) \<longrightarrow>
            fst (convert E ''pypdf2'' p w) = Inr (join [CHR 0x0A] ts))
       \<and> (\<forall>d. PdfReader E (fs w) p = Inl d \<longrightarrow>
            fst (convert E ''pypdf2'' p w) = Inl (Exception (''PyPDF2 extraction failed: '' @ d)))
       \<and> (\<forall>ts d rest. PdfReader E (fs w) p = Inr (map Inr ts @ Inl d # rest) \<longrightarrow>
            fst (convert E ''pypdf2'' p w) = Inl (Exception (''PyPDF2 extraction failed: '' @ d)))"
  unfolding convert_pypdf2 [OF assms]
  by (simp add: extract_with_pypdf2_def Let_def pypdf2_pages_all pypdf2_pages_raise)

lemma pdfplumber_pages_all: "pdfplumber_pages (map Inr os) acc = Inr (acc @ page_texts os)"
proof (induction os arbitrary: acc)
  case Nil
  then show ?case by (simp add: page_texts_def)
next
  case (Cons x os)
  then show ?case by (cases x) (simp_all add: page_texts_def)
qed

lemma pdfplumber_pages_raise: "pdfplumber_pages (map Inr os @ Inl d # rest) acc = Inl d"
proof (induction os arbitrary: acc)
  case Nil
  then show ?case by simp
next
  case (Cons x os)
  then show ?case by (cases x) simp_all
qed

text \<open>
  Claim C6. On a path that exists and has the suffix \<^verbatim>\<open>.pdf\<close>, \<^verbatim>\<open>convert\<close> in
  \<^verbatim>\<open>'pdfplumber'\<close> mode returns the page texts joined by one newline, leaving out
  every page whose text is \<^verbatim>\<open>None\<close> or empty; when the library raises, on
  opening or on some page, the failure is an \<^verbatim>\<open>Exception\<close> whose message names
  pdfplumber and carries the library's message.
\<close>
theorem pdfplumber_joins_nonempty_pages:
  assumes "path_exists w p" and "lower (path_suffix p) = ''.pdf''"
  shows "(\<forall>os. pdfplumber_open E (fs w) p = Inr (map Inr os) \<longrightarrow>
            fst (convert E ''pdfplumber'' p w)
              = Inr (join [CHR 0x0A]
                  (filter (\<lambda>t. t \<noteq> []) (map (\<lambda>x. case x of None \<Rightarrow> [] | Some t \<Rightarrow> t) os))))
       \<and> (\<forall>d. pdfplumber_open E (fs w) p = Inl d \<longrightarrow>
            fst (convert E ''pdfplumber'' p w)
              = Inl (Exception (''pdfplumber extraction failed: '' @ d)))
       \<and> (\<forall>os d rest. pdfplumber_open E (fs w) p = Inr (map Inr os @ Inl d # rest) \<longrightarrow>
            fst (convert E ''pdfplumber'' p w)
              = Inl (Exception (''pdfplumber extraction failed: '' @ d)))"
  unfolding convert_pdfplumber [OF assms]
  by (simp add: extract_with_pdfplumber_def Let_def pdfplumber_pages_all pdfplumber_pages_raise
      page_texts_def)

text \<open>
  Claim C9. Every method string other than \<^verbatim>\<open>'pypdf2'\<close> and \<^verbatim>\<open>'pdfplumber'\<close>
  makes \<^verbatim>\<open>convert\<close> behave as the string \<^verbatim>\<open>'auto'\<close> does: same result, same
  world. \<^verbatim>\<open>PDFConverter\<close> rejects no method.
\<close>
theorem unknown_method_is_auto:
  "self_method \<noteq> ''pypdf2'' \<and> self_method \<noteq> ''pdfplumber'' \<longrightarrow>
     convert E self_method p w = convert E ''auto'' p w"
  by (simp add: convert_def)


theorem auto_falls_back_when_pdfplumber_raises_witness:
  "path_exists sample_world ''docs/bad.pdf''
   \<and> lower (path_suffix ''docs/bad.pdf'') = ''.pdf''
   \<and> fst (extract_with_pdfplumber sample_env ''docs/bad.pdf'' sample_world)
       = Inl (Exception ''pdfplumber extraction failed: No /Root object'')
   \<and> fst (convert sample_env ''auto'' ''docs/bad.pdf'' sample_world)
       = fst (convert sample_env ''pypdf2'' ''docs/bad.pdf'' sample_world)
   \<and> fst (convert sample_env ''pypdf2'' ''docs/bad.pdf'' sample_world)
       = Inl (Exception ''PyPDF2 extraction failed: EOF marker not found'')"
proof -
  have h1: "path_exists sample_world ''docs/bad.pdf''" by code_simp
  have h2: "lower (path_suffix ''docs/bad.pdf'') = ''.pdf''" by code_simp
  have h3: "fst (extract_with_pdfplumber sample_env ''docs/bad.pdf'' sample_world)
       = Inl (Exception ''pdfplumber extraction failed: No /Root object'')" by code_simp
  have h4: "fst (convert sample_env ''pypdf2'' ''docs/bad.pdf'' sample_world)
       = Inl (Exception ''PyPDF2 extraction failed: EOF marker not found'')" by code_simp
  from auto_falls_back_when_pdfplumber_raises [OF h1 h2 h3] h1 h2 h3 h4
  show ?thesis by simp
qed

theorem auto_falls_back_when_pdfplumber_blank_witness:
  "path_exists sample_world ''docs/image.pdf''
   \<and> lower (path_suffix ''docs/image.pdf'') = ''.pdf''
   \<and> fst (extract_with_pdfplumber sample_env ''docs/image.pdf'' sample_world) = Inr '' ''
   \<and> fst (extract_with_pypdf2 sample_env ''docs/image.pdf'' sample_world) = Inr ''real text''
   \<and> fst (convert sample_env ''auto'' ''docs/image.pdf'' sample_world)
       = fst (convert sample_env ''pypdf2'' ''docs/image.pdf'' sample_world)
   \<and> fst (convert sample_env ''auto'' ''docs/image.pdf'' sample_world) = Inr ''real text''
   \<and> calls (snd (convert sample_env ''auto'' ''docs/image.pdf'' sample_world))
       = [Pdfplumber, PyPDF2]
   \<and> path_exists sample_world ''docs/scan.pdf''
   \<and> lower (path_suffix ''docs/scan.pdf'') = ''.pdf''
   \<and> pdfplumber_open sample_env (fs sample_world) ''docs/scan.pdf'' = Inr [Inr None, Inr (Some [])]
   \<and> fst (convert sample_env ''auto'' ''docs/scan.pdf'' sample_world)
       = fst (convert sample_env ''pypdf2'' ''docs/scan.pdf'' sample_world)
   \<and> fst (convert sample_env ''auto'' ''docs/scan.pdf'' sample_world)
       = Inl (Exception ''PyPDF2 extraction failed: EOF marker not found'')"
proof -
  have a1: "path_exists sample_world ''docs/image.pdf''" by code_simp
  have a2: "lower (path_suffix ''docs/image.pdf'') = ''.pdf''" by code_simp
  have a3: "fst (extract_with_pdfplumber sample_env ''docs/image.pdf'' sample_world) = Inr '' ''"
    by code_simp
  have a4: "\<forall>c\<in>set '' ''. isspace c" by code_simp
  have a5: "fst (extract_with_pypdf2 sample_env ''docs/image.pdf'' sample_world) = Inr ''real text''"
    by code_simp
  have a6: "calls sample_world = []" by code_simp
  note ta = auto_falls_back_when_pdfplumber_blank [OF a1 a2, of sample_env,
      THEN conjunct1, rule_format, OF conjI [OF a3 a4]]
  have ra: "fst (convert sample_env ''auto'' ''docs/image.pdf'' sample_world)
       = fst (convert sample_env ''pypdf2'' ''docs/image.pdf'' sample_world)"
    and ra': "fst (convert sample_env ''auto'' ''docs/image.pdf'' sample_world) = Inr ''real text''"
    and ra'': "calls (snd (convert sample_env ''auto'' ''docs/image.pdf'' sample_world))
       = [Pdfplumber, PyPDF2]"
    using ta a5 a6 by auto
  have b1: "path_exists sample_world ''docs/scan.pdf''" by code_simp
  have b2: "lower (path_suffix ''docs/scan.pdf'') = ''.pdf''" by code_simp
  have b3: "pdfplumber_open sample_env (fs sample_world) ''docs/scan.pdf''
              = Inr [Inr None, Inr (Some [])]"
    by code_simp
  have b4: "\<forall>pg\<in>set [Inr None, Inr (Some [])].
              pg = (Inr None :: string + string option) \<or> pg = Inr (Some [])"
    by simp
  have b5: "fst (extract_with_pypdf2 sample_env ''docs/scan.pdf'' sample_world)
       = Inl (Exception ''PyPDF2 extraction failed: EOF marker not found'')"
    by code_simp
  note tb = auto_falls_back_when_pdfplumber_blank [OF b1 b2, of sample_env,
      THEN conjunct2, rule_format, OF conjI [OF b3 b4]]
  have rb: "fst (convert sample_env ''auto'' ''docs/scan.pdf'' sample_world)
       = fst (convert sample_env ''pypdf2'' ''docs/scan.pdf'' sample_world)"
    and rb': "fst (convert sample_env ''auto'' ''docs/scan.pdf'' sample_world)
       = Inl (Exception ''PyPDF2 extraction failed: EOF marker not found'')"
    using tb b5 by auto
  from a1 a2 a3 a5 ra ra' ra'' b1 b2 b3 rb rb' show ?thesis by blast
qed

theorem invalid_input_raises_before_any_backend_witness:
  "fs sample_world ''missing.txt'' = None
   \<and> convert sample_env ''auto'' ''missing.txt'' sample_world
       = (Inl (FileNotFoundError ''PDF file not found: missing.txt''), sample_world)
   \<and> path_exists sample_world ''notes.txt''
   \<and> lower (path_suffix ''notes.txt'') \<noteq> ''.pdf''
   \<and> convert sample_env ''pypdf2'' ''notes.txt'' sample_world
       = (Inl (ValueError ''File must be a PDF: notes.txt''), sample_world)
   \<and> calls (snd (convert sample_env ''pypdf2'' ''notes.txt'' sample_world)) = calls sample_world
   \<and> fs sample_world (replicate 256 (CHR ''b'') @ ''.pdf'')
       = Some (StatError (''[Errno 36] File name too long: ''
                           @ quoted (replicate 256 (CHR ''b'') @ ''.pdf'')))
   \<and> convert sample_env ''pdfplumber'' (replicate 256 (CHR ''b'') @ ''.pdf'') sample_world
       = (Inl (OSError (''[Errno 36] File name too long: ''
                         @ quoted (replicate 256 (CHR ''b'') @ ''.pdf''))), sample_world)"
proof -
  let ?long = "replicate 256 (CHR ''b'') @ ''.pdf''"
  have h1: "fs sample_world ''missing.txt'' = None" by code_simp
  have h2: "path_exists sample_world ''notes.txt''" by code_simp
  have h3: "lower (path_suffix ''notes.txt'') \<noteq> ''.pdf''" by code_simp
  have h4: "fs sample_world ?long
       = Some (StatError (''[Errno 36] File name too long: '' @ quoted ?long))" by code_simp
  note a = invalid_input_raises_before_any_backend
    [of sample_world "''missing.txt''" sample_env "''auto''"]
  note b = invalid_input_raises_before_any_backend
    [of sample_world "''notes.txt''" sample_env "''pypdf2''"]
  note c = invalid_input_raises_before_any_backend
    [of sample_world ?long sample_env "''pdfplumber''"]
  have ra: "convert sample_env ''auto'' ''missing.txt'' sample_world
       = (Inl (FileNotFoundError ''PDF file not found: missing.txt''), sample_world)"
    using a h1 by simp
  have rb: "convert sample_env ''pypdf2'' ''notes.txt'' sample_world
       = (Inl (ValueError ''File must be a PDF: notes.txt''), sample_world)"
    and rb': "calls (snd (convert sample_env ''pypdf2'' ''notes.txt'' sample_world))
       = calls sample_world"
    using b h2 h3 by simp_all
  have rc: "convert sample_env ''pdfplumber'' ?long sample_world
       = (Inl (OSError (''[Errno 36] File name too long: '' @ quoted ?long)), sample_world)"
    using c h4 by blast
  from h1 ra h2 h3 rb rb' h4 rc show ?thesis by blast
qed

theorem pypdf2_joins_every_page_witness:
  "path_exists sample_world ''docs/a.pdf''
   \<and> lower (path_suffix ''docs/a.pdf'') = ''.pdf''
   \<and> PdfReader sample_env (fs sample_world) ''docs/a.pdf'' = Inr (map Inr [''one'', [], ''three''])
   \<and> fst (convert sample_env ''pypdf2'' ''docs/a.pdf'' sample_world)
       = Inr (''one'' @ [CHR 0x0A] @ [CHR 0x0A] @ ''three'')
   \<and> path_exists sample_world ''docs/bad.pdf''
   \<and> lower (path_suffix ''docs/bad.pdf'') = ''.pdf''
   \<and> PdfReader sample_env (fs sample_world) ''docs/bad.pdf'' = Inl ''EOF marker not found''
   \<and> fst (convert sample_env ''pypdf2'' ''docs/bad.pdf'' sample_world)
       = Inl (Exception ''PyPDF2 extraction failed: EOF marker not found'')"
proof -
  have a1: "path_exists sample_world ''docs/a.pdf''" by code_simp
  have a2: "lower (path_suffix ''docs/a.pdf'') = ''.pdf''" by code_simp
  have a3: "PdfReader sample_env (fs sample_world) ''docs/a.pdf''
              = Inr (map Inr [''one'', [], ''three''])" by code_simp
  have b1: "path_exists sample_world ''docs/bad.pdf''" by code_simp
  have b2: "lower (path_suffix ''docs/bad.pdf'') = ''.pdf''" by code_simp
  have b3: "PdfReader sample_env (fs sample_world) ''docs/bad.pdf'' = Inl ''EOF marker not found''"
    by code_simp
  from pypdf2_joins_every_page [OF a1 a2, of sample_env, THEN conjunct1, rule_format, OF a3]
  have a4: "fst (convert sample_env ''pypdf2'' ''docs/a.pdf'' sample_world)
       = Inr (''one'' @ [CHR 0x0A] @ [CHR 0x0A] @ ''three'')" by simp
  from pypdf2_joins_every_page [OF b1 b2, of sample_env, THEN conjunct2, THEN conjunct1,
      rule_format, OF b3]
  have b4: "fst (convert sample_env ''pypdf2'' ''docs/bad.pdf'' sample_world)
       = Inl (Exception ''PyPDF2 extraction failed: EOF marker not found'')" by simp
  from a1 a2 a3 a4 b1 b2 b3 b4 show ?thesis by blast
qed

theorem pdfplumber_joins_nonempty_pages_witness:
  "path_exists sample_world ''docs/a.pdf''
   \<and> lower (path_suffix ''docs/a.pdf'') = ''.pdf''
   \<and> pdfplumber_open sample_env (fs sample_world) ''docs/a.pdf''
       = Inr (map Inr [Some ''One'', None, Some [], Some ''Three''])
   \<and> fst (convert sample_env ''pdfplumber'' ''docs/a.pdf'' sample_world)
       = Inr (''One'' @ [CHR 0x0A] @ ''Three'')
   \<and> path_exists sample_world ''docs/bad.pdf''
   \<and> lower (path_suffix ''docs/bad.pdf'') = ''.pdf''
   \<and> pdfplumber_open sample_env (fs sample_world) ''docs/bad.pdf'' = Inl ''No /Root object''
   \<and> fst (convert sample_env ''pdfplumber'' ''docs/bad.pdf'' sample_world)
       = Inl (Exception ''pdfplumber extraction failed: No /Root object'')"
proof -
  have a1: "path_exists sample_world ''docs/a.pdf''" by code_simp
  have a2: "lower (path_suffix ''docs/a.pdf'') = ''.pdf''" by code_simp
  have a3: "pdfplumber_open sample_env (fs sample_world) ''docs/a.pdf''
       = Inr (map Inr [Some ''One'', None, Some [], Some ''Three''])" by code_simp
  have b1: "path_exists sample_world ''docs/bad.pdf''" by code_simp
  have b2: "lower (path_suffix ''docs/bad.pdf'') = ''.pdf''" by code_simp
  have b3: "pdfplumber_open sample_env (fs sample_world) ''docs/bad.pdf'' = Inl ''No /Root object''"
    by code_simp
  from pdfplumber_joins_nonempty_pages [OF a1 a2, of sample_env, THEN conjunct1, rule_format, OF a3]
  have a4: "fst (convert sample_env ''pdfplumber'' ''docs/a.pdf'' sample_world)
       = Inr (''One'' @ [CHR 0x0A] @ ''Three'')" by simp
  from pdfplumber_joins_nonempty_pages [OF b1 b2, of sample_env, THEN conjunct2, THEN conjunct1,
      rule_format, OF b3]
  have b4: "fst (convert sample_env ''pdfplumber'' ''docs/bad.pdf'' sample_world)
       = Inl (Exception ''pdfplumber extraction failed: No /Root object'')" by simp
  from a1 a2 a3 a4 b1 b2 b3 b4 show ?thesis by blast
qed

theorem unknown_method_is_auto_witness:
  "''fastest'' \<noteq> ''pypdf2'' \<and> ''fastest'' \<noteq> ''pdfplumber''
   \<and> convert sample_env ''fastest'' ''docs/odd.pdf'' sample_world
       = convert sample_env ''auto'' ''docs/odd.pdf'' sample_world
   \<and> fst (convert sample_env ''fastest'' ''docs/odd.pdf'' sample_world) = Inr ''recovered''
   \<and> calls (snd (convert sample_env ''fastest'' ''docs/odd.pdf'' sample_world))
       = [Pdfplumber, PyPDF2]"
proof -
  have h: "''fastest'' \<noteq> ''pypdf2'' \<and> ''fastest'' \<noteq> ''pdfplumber''" by simp
  have e1: "fst (convert sample_env ''auto'' ''docs/odd.pdf'' sample_world) = Inr ''recovered''"
    by code_simp
  have e2: "calls (snd (convert sample_env ''auto'' ''docs/odd.pdf'' sample_world))
       = [Pdfplumber, PyPDF2]"
    by code_simp
  from unknown_method_is_auto [of "''fastest''" sample_env "''docs/odd.pdf''" sample_world] h e1 e2
  show ?thesis by simp
qed

text \<open>
  Claim C3 says that in \<^verbatim>\<open>'auto'\<close> mode each backend extraction function is
  entered at most once. The run below is \<^verbatim>\<open>convert\<close> in \<^verbatim>\<open>'auto'\<close> mode on
  \<^verbatim>\<open>docs/scan.pdf\<close>, where pdfplumber returns the empty string and PyPDF2
  raises: \<^verbatim>\<open>extract_with_pypdf2\<close> is entered twice, at line 60 and, because the
  bare \<^verbatim>\<open>except:\<close> catches its exception, again at line 63. The lemma
  \<open>convert_auto_calls\<close> above gives the calls of every run in \<^verbatim>\<open>'auto'\<close> mode.
\<close>
theorem auto_blank_then_raise_invokes_pypdf2_twice:
  "path_exists sample_world ''docs/scan.pdf''
   \<and> lower (path_suffix ''docs/scan.pdf'') = ''.pdf''
   \<and> fst (extract_with_pdfplumber sample_env ''docs/scan.pdf'' sample_world) = Inr []
   \<and> fst (extract_with_pypdf2 sample_env ''docs/scan.pdf'' sample_world)
       = Inl (Exception ''PyPDF2 extraction failed: EOF marker not found'')
   \<and> calls (snd (convert sample_env ''auto'' ''docs/scan.pdf'' sample_world))
       = [Pdfplumber, PyPDF2, PyPDF2]
   \<and> count_list (calls (snd (convert sample_env ''auto'' ''docs/scan.pdf'' sample_world))) PyPDF2 = 2"
  by code_simp

section \<open>Properties of batch\_convert\<close>

lemma dict_set_keys:
  "map fst (dict_set d k v) = (if k \<in> set (map fst d) then map fst d else map fst d @ [k])"
  by (induction d k v rule: dict_set.induct) auto


lemma batch_loop_step:
  "\<exists>v w'. batch_loop E m od (p # ps) r w = batch_loop E m od ps (dict_set r p v) w'"
  by (simp split: prod.splits sum.splits option.splits add: Let_def) blast

lemma batch_loop_key_set:
  "set (map fst (fst (batch_loop E m od ps r w))) = set (map fst r) \<union> set ps"
proof (induction ps arbitrary: r w)
  case Nil
  then show ?case by simp
next
  case (Cons p ps)
  obtain v w' where s: "batch_loop E m od (p # ps) r w = batch_loop E m od ps (dict_set r p v) w'"
    using batch_loop_step by blast
  show ?case
    unfolding s Cons.IH by (auto simp add: dict_set_keys)
qed

lemma batch_loop_keys_distinct:
  "distinct (map fst r) \<Longrightarrow> distinct (map fst (fst (batch_loop E m od ps r w)))"
proof (induction ps arbitrary: r w)
  case Nil
  then show ?case by simp
next
  case (Cons p ps)
  obtain v w' where s: "batch_loop E m od (p # ps) r w = batch_loop E m od ps (dict_set r p v) w'"
    using batch_loop_step by blast
  have "distinct (map fst (dict_set r p v))"
    using Cons.prems by (simp add: dict_set_keys)
  then show ?case
    unfolding s by (rule Cons.IH)
qed

lemma batch_loop_keys_in_order:
  "distinct (map fst r @ ps) \<Longrightarrow> map fst (fst (batch_loop E m od ps r w)) = map fst r @ ps"
proof (induction ps arbitrary: r w)
  case Nil
  then show ?case by simp
next
  case (Cons p ps)
  obtain v w' where s: "batch_loop E m od (p # ps) r w = batch_loop E m od ps (dict_set r p v) w'"
    using batch_loop_step by blast
  have k: "map fst (dict_set r p v) = map fst r @ [p]"
    using Cons.prems by (auto simp add: dict_set_keys)
  have "distinct (map fst (dict_set r p v) @ ps)"
    using Cons.prems unfolding k by auto
  then have "map fst (fst (batch_loop E m od ps (dict_set r p v) w')) = map fst (dict_set r p v) @ ps"
    by (rule Cons.IH)
  then show ?case
    unfolding s k by simp
qed

lemma status_cases: "status e = ''success'' \<or> status e = ''error''"
  by (cases e) simp_all

lemma counts_add_up: "success_count r + error_count r = length r"
proof (induction r)
  case Nil
  then show ?case by (simp add: success_count_def error_count_def)
next
  case (Cons x r)
  obtain k e where x: "x = (k, e)" by (cases x)
  from Cons show ?case
    unfolding x by (cases e) (simp_all add: success_count_def error_count_def)
qed

lemma batch_loop_append:
  "batch_loop E m od (ps @ qs) r w =
     (case batch_loop E m od ps r w of (r', w') \<Rightarrow> batch_loop E m od qs r' w')"
proof (induction ps arbitrary: r w)
  case Nil
  then show ?case by simp
next
  case (Cons p ps)
  show ?case
  proof (cases od)
    case None
    then show ?thesis
      using Cons.IH by (simp split: prod.splits sum.splits add: Let_def)
  next
    case (Some d)
    then show ?thesis
      using Cons.IH by (simp split: prod.splits sum.splits add: Let_def)
  qed
qed

lemma fs_convert: "fs (snd (convert E m p w)) = fs w"
proof -
  have a: "fs (snd (extract_with_pypdf2 E p v)) = fs v" for v
    by (simp add: extract_with_pypdf2_def Let_def split: sum.splits)
  have b: "fs (snd (extract_with_pdfplumber E p v)) = fs v" for v
    by (simp add: extract_with_pdfplumber_def Let_def split: sum.splits)
  obtain x w1 where x: "extract_with_pdfplumber E p w = (x, w1)"
    by (cases "extract_with_pdfplumber E p w")
  obtain y w2 where y: "extract_with_pypdf2 E p w1 = (y, w2)"
    by (cases "extract_with_pypdf2 E p w1")
  have w1: "fs w1 = fs w" using b [of w] x by simp
  have w2: "fs w2 = fs w" using a [of w1] y w1 by simp
  show ?thesis
    using a [of w] a [of w1] a [of w2] b [of w] x y w1 w2
    by (simp add: convert_def split: sum.splits)
qed



lemma batch_loop_Cons:
  "batch_loop E m od (p # ps) r w =
     (case batch_item E m od p w of (v, w') \<Rightarrow> batch_loop E m od ps (dict_set r p v) w')"
  by (simp add: batch_item_def Let_def split: prod.splits sum.splits option.splits)

lemma batch_item_error:
  "convert E m p w = (Inl e, w1) \<Longrightarrow> batch_item E m od p w = (Error_entry (str_of e), w1)"
  by (simp add: batch_item_def)

lemma batch_item_preview:
  "convert E m p w = (Inr t, w1) \<Longrightarrow>
   batch_item E m None p w
     = (Success_text (if length t > 200 then take 200 t @ ''...'' else t), w1)"
  by (simp add: batch_item_def)

lemma batch_item_write_error:
  "convert E m p w = (Inr t, w1) \<Longrightarrow>
   write_text (path_div d (path_stem p @ ''.txt'')) t w1 = Inl e \<Longrightarrow>
   batch_item E m (Some d) p w = (Error_entry (str_of e), w1)"
  by (simp add: batch_item_def Let_def)

lemma batch_item_written:
  "convert E m p w = (Inr t, w1) \<Longrightarrow>
   write_text (path_div d (path_stem p @ ''.txt'')) t w1 = Inr w2 \<Longrightarrow>
   batch_item E m (Some d) p w = (Success_output (path_div d (path_stem p @ ''.txt'')), w2)"
  by (simp add: batch_item_def Let_def)

lemma dict_set_fresh: "k \<notin> set (map fst d) \<Longrightarrow> dict_set d k v = d @ [(k, v)]"
  by (induction d k v rule: dict_set.induct) auto

lemma batch_loop_fresh:
  "distinct (map fst r @ qs) \<Longrightarrow>
   batch_loop E m od qs r w
     = (r @ fst (batch_loop E m od qs [] w), snd (batch_loop E m od qs [] w))"
proof (induction qs arbitrary: r w)
  case Nil
  then show ?case by simp
next
  case (Cons q qs)
  obtain v w' where i: "batch_item E m od q w = (v, w')"
    by (cases "batch_item E m od q w")
  have fresh: "q \<notin> set (map fst r)" using Cons.prems by auto
  have d1: "distinct (map fst (r @ [(q, v)]) @ qs)" using Cons.prems by auto
  have d2: "distinct (map fst [(q, v)] @ qs)" using Cons.prems by auto
  have "batch_loop E m od (q # qs) r w = batch_loop E m od qs (r @ [(q, v)]) w'"
    using i fresh by (simp add: batch_loop_Cons dict_set_fresh del: batch_loop.simps(2))
  also have "\<dots> = ((r @ [(q, v)]) @ fst (batch_loop E m od qs [] w'),
                     snd (batch_loop E m od qs [] w'))"
    using d1 by (rule Cons.IH)
  finally have a: "batch_loop E m od (q # qs) r w
      = (r @ (q, v) # fst (batch_loop E m od qs [] w'), snd (batch_loop E m od qs [] w'))"
    by simp
  have "batch_loop E m od (q # qs) [] w = batch_loop E m od qs [(q, v)] w'"
    using i by (simp add: batch_loop_Cons del: batch_loop.simps(2))
  also have "\<dots> = ([(q, v)] @ fst (batch_loop E m od qs [] w'),
                     snd (batch_loop E m od qs [] w'))"
    using d2 by (rule Cons.IH)
  finally have b: "batch_loop E m od (q # qs) [] w
      = ((q, v) # fst (batch_loop E m od qs [] w'), snd (batch_loop E m od qs [] w'))"
    by simp
  show ?case unfolding a b by simp
qed

lemma batch_convert_snoc:
  "batch_convert E m (ps @ [p]) od w =
     (case batch_convert E m ps od w of
        (r, w1) \<Rightarrow> (case batch_item E m od p w1 of (v, w2) \<Rightarrow> (dict_set r p v, w2)))"
  by (simp add: batch_convert_def batch_loop_append batch_loop_Cons split: prod.splits
      del: batch_loop.simps(2))

lemma batch_convert_nth:
  assumes "distinct ps" and "i < length ps"
  shows "fst (batch_convert E m ps od w) ! i
           = (ps ! i, fst (batch_item E m od (ps ! i) (snd (batch_convert E m (take i ps) od w))))"
    and "snd (batch_convert E m (take (Suc i) ps) od w)
           = snd (batch_item E m od (ps ! i) (snd (batch_convert E m (take i ps) od w)))"
proof -
  let ?p = "ps ! i"
  obtain r1 w1 where pre: "batch_loop E m od (take i ps) [] w = (r1, w1)"
    by (cases "batch_loop E m od (take i ps) [] w")
  obtain v w2 where it: "batch_item E m od ?p w1 = (v, w2)"
    by (cases "batch_item E m od ?p w1")
  have split: "ps = take i ps @ ?p # drop (Suc i) ps"
    using assms(2) by (simp add: id_take_nth_drop)
  have keys: "map fst r1 = take i ps"
    using batch_loop_keys_in_order [of "[]" "take i ps" E m od w] assms(1) pre by simp
  have d: "distinct (map fst r1 @ ?p # drop (Suc i) ps)"
    using assms(1) split keys by metis
  have d': "distinct (map fst [(?p, v)] @ drop (Suc i) ps)"
    using d by simp
  have "batch_loop E m od ps [] w = batch_loop E m od (?p # drop (Suc i) ps) r1 w1"
    using batch_loop_append [of E m od "take i ps" "?p # drop (Suc i) ps" "[]" w] pre split
    by simp
  also have "\<dots> = (r1 @ fst (batch_loop E m od (?p # drop (Suc i) ps) [] w1),
                     snd (batch_loop E m od (?p # drop (Suc i) ps) [] w1))"
    using d by (rule batch_loop_fresh)
  finally have whole: "fst (batch_loop E m od ps [] w)
      = r1 @ fst (batch_loop E m od (?p # drop (Suc i) ps) [] w1)"
    by simp
  have "batch_loop E m od (?p # drop (Suc i) ps) [] w1
      = batch_loop E m od (drop (Suc i) ps) [(?p, v)] w2"
    using it by (simp add: batch_loop_Cons del: batch_loop.simps(2))
  also have "\<dots> = ([(?p, v)] @ fst (batch_loop E m od (drop (Suc i) ps) [] w2),
                     snd (batch_loop E m od (drop (Suc i) ps) [] w2))"
    using d' by (rule batch_loop_fresh)
  finally have rest: "fst (batch_loop E m od (?p # drop (Suc i) ps) [] w1)
      = (?p, v) # fst (batch_loop E m od (drop (Suc i) ps) [] w2)"
    by simp
  have len: "length r1 = i"
    using keys assms(2) by (metis length_map length_take min.absorb2 less_imp_le_nat)
  have "fst (batch_loop E m od ps [] w) ! i = (?p, v)"
    unfolding whole rest using len by (simp add: nth_append)
  then show "fst (batch_convert E m ps od w) ! i
           = (ps ! i, fst (batch_item E m od (ps ! i) (snd (batch_convert E m (take i ps) od w))))"
    using pre it by (simp add: batch_convert_def)
  have "take (Suc i) ps = take i ps @ [?p]"
    using assms(2) by (simp add: take_Suc_conv_app_nth)
  then show "snd (batch_convert E m (take (Suc i) ps) od w)
           = snd (batch_item E m od (ps ! i) (snd (batch_convert E m (take i ps) od w)))"
    using pre it batch_convert_snoc [of E m "take i ps" ?p od w]
    by (simp add: batch_convert_def)
qed







text \<open>
  Claim C7, as amended. For a list of N pairwise distinct paths,
  \<^verbatim>\<open>batch_convert\<close> goes through the paths in input order: the i-th path is
  converted in the world that the paths before it have left, whatever
  happened to them, and the i-th entry of the report is the outcome of that
  conversion: \<^verbatim>\<open>'error'\<close> with the message when \<^verbatim>\<open>convert\<close> or the writing of the
  output raises, \<^verbatim>\<open>'success'\<close> with the preview or the output path otherwise.
  The report has exactly N entries, keyed by the input paths in input order,
  and the two counts of \<^verbatim>\<open>main\<close> add up to N. For any list the report has one
  entry per distinct path, each marked \<^verbatim>\<open>'success'\<close> or \<^verbatim>\<open>'error'\<close>, and the
  counts add up to the size of the report.
\<close>
theorem batch_report_one_entry_per_path:
  "set (map fst (fst (batch_convert E m ps od w))) = set ps
   \<and> distinct (map fst (fst (batch_convert E m ps od w)))
   \<and> length (fst (batch_convert E m ps od w)) = card (set ps)
   \<and> (\<forall>e\<in>set (map snd (fst (batch_convert E m ps od w))).
        status e = ''success'' \<or> status e = ''error'')
   \<and> success_count (fst (batch_convert E m ps od w)) + error_count (fst (batch_convert E m ps od w))
        = length (fst (batch_convert E m ps od w))
   \<and> batch_convert E m [] od w = ([], w)
   \<and> (distinct ps \<longrightarrow>
        map fst (fst (batch_convert E m ps od w)) = ps
        \<and> length (fst (batch_convert E m ps od w)) = length ps
        \<and> success_count (fst (batch_convert E m ps od w))
            + error_count (fst (batch_convert E m ps od w)) = length ps
        \<and> (\<forall>i<length ps. \<forall>x w1.
              convert E m (ps ! i) (snd (batch_convert E m (take i ps) od w)) = (x, w1) \<longrightarrow>
              fst (fst (batch_convert E m ps od w) ! i) = ps ! i
              \<and> (case x of
                    Inl e \<Rightarrow>
                      snd (fst (batch_convert E m ps od w) ! i) = Error_entry (str_of e)
                      \<and> snd (batch_convert E m (take (Suc i) ps) od w) = w1
                  | Inr t \<Rightarrow>
                      (case od of
                         None \<Rightarrow>
                           snd (fst (batch_convert E m ps od w) ! i)
                             = Success_text (if length t > 200 then take 200 t @ ''...'' else t)
                           \<and> snd (batch_convert E m (take (Suc i) ps) od w) = w1
                       | Some d \<Rightarrow>
                           (case write_text (path_div d (path_stem (ps ! i) @ ''.txt'')) t w1 of
                              Inl e \<Rightarrow>
                                snd (fst (batch_convert E m ps od w) ! i) = Error_entry (str_of e)
                                \<and> snd (batch_convert E m (take (Suc i) ps) od w) = w1
                            | Inr w2 \<Rightarrow>
                                snd (fst (batch_convert E m ps od w) ! i)
                                  = Success_output (path_div d (path_stem (ps ! i) @ ''.txt''))
                                \<and> snd (batch_convert E m (take (Suc i) ps) od w) = w2)))))"
proof -
  let ?R = "fst (batch_convert E m ps od w)"
  have keys: "set (map fst ?R) = set ps"
    using batch_loop_key_set [of E m od ps "[]" w] by (simp add: batch_convert_def)
  have dist: "distinct (map fst ?R)"
    using batch_loop_keys_distinct [of "[]" E m od ps w] by (simp add: batch_convert_def)
  have "length ?R = length (map fst ?R)" by simp
  also have "\<dots> = card (set (map fst ?R))"
    using dist by (rule distinct_card [symmetric])
  finally have len: "length ?R = card (set ps)"
    unfolding keys .
  have start: "batch_convert E m [] od w = ([], w)"
    by (simp add: batch_convert_def)
  have ordered: "map fst ?R = ps" if "distinct ps"
    using batch_loop_keys_in_order [of "[]" ps E m od w] that by (simp add: batch_convert_def)
  have len2: "length ?R = length ps" if "distinct ps"
    using len that by (simp add: distinct_card)
  have item: "fst (?R ! i) = ps ! i
       \<and> (case x of
             Inl e \<Rightarrow>
               snd (?R ! i) = Error_entry (str_of e)
               \<and> snd (batch_convert E m (take (Suc i) ps) od w) = w1
           | Inr t \<Rightarrow>
               (case od of
                  None \<Rightarrow>
                    snd (?R ! i) = Success_text (if length t > 200 then take 200 t @ ''...'' else t)
                    \<and> snd (batch_convert E m (take (Suc i) ps) od w) = w1
                | Some d \<Rightarrow>
                    (case write_text (path_div d (path_stem (ps ! i) @ ''.txt'')) t w1 of
                       Inl e \<Rightarrow>
                         snd (?R ! i) = Error_entry (str_of e)
                         \<and> snd (batch_convert E m (take (Suc i) ps) od w) = w1
                     | Inr w2 \<Rightarrow>
                         snd (?R ! i) = Success_output (path_div d (path_stem (ps ! i) @ ''.txt''))
                         \<and> snd (batch_convert E m (take (Suc i) ps) od w) = w2)))"
    if d: "distinct ps" and i: "i < length ps"
      and c: "convert E m (ps ! i) (snd (batch_convert E m (take i ps) od w)) = (x, w1)"
    for i x w1
  proof -
    note n = batch_convert_nth [OF d i, of E m od w]
    show ?thesis
    proof (cases x)
      case (Inl e)
      then show ?thesis
        using n batch_item_error [of E m "ps ! i" _ e w1 od] c by simp
    next
      case (Inr t)
      show ?thesis
      proof (cases od)
        case None
        then show ?thesis
          using n batch_item_preview [of E m "ps ! i" _ t w1] c Inr by simp
      next
        case (Some dir)
        show ?thesis
        proof (cases "write_text (path_div dir (path_stem (ps ! i) @ ''.txt'')) t w1")
          case (Inl e)
          then show ?thesis
            using n batch_item_write_error [of E m "ps ! i" _ t w1 dir e] c Some \<open>x = Inr t\<close>
            by simp
        next
          case (Inr w2)
          then show ?thesis
            using n batch_item_written [of E m "ps ! i" _ t w1 dir w2] c Some \<open>x = Inr t\<close>
            by simp
        qed
      qed
    qed
  qed
  show ?thesis
    using keys dist len start ordered len2 counts_add_up [of ?R] status_cases item
    by (intro conjI impI allI ballI) auto
qed

text \<open>
  Claim C7 as stated, for every list of N paths, fails on a list that names a
  path twice: the report is keyed by path, so two inputs give one entry.
\<close>
theorem batch_report_repeated_path_counterexample:
  "length [''docs/a.pdf'', ''docs/a.pdf''] = 2
   \<and> length (fst (batch_convert sample_env ''auto'' [''docs/a.pdf'', ''docs/a.pdf''] None sample_world)) = 1
   \<and> success_count (fst (batch_convert sample_env ''auto'' [''docs/a.pdf'', ''docs/a.pdf''] None sample_world))
      + error_count (fst (batch_convert sample_env ''auto'' [''docs/a.pdf'', ''docs/a.pdf''] None sample_world))
      = 1"
  by code_simp

theorem batch_report_one_entry_per_path_witness:
  "distinct [''docs/bad.pdf'', ''docs/a.pdf'', ''notes.txt'', ''docs/odd.pdf'']
   \<and> map fst (fst (batch_convert sample_env ''auto''
         [''docs/bad.pdf'', ''docs/a.pdf'', ''notes.txt'', ''docs/odd.pdf''] None sample_world))
       = [''docs/bad.pdf'', ''docs/a.pdf'', ''notes.txt'', ''docs/odd.pdf'']
   \<and> fst (batch_convert sample_env ''auto''
         [''docs/bad.pdf'', ''docs/a.pdf'', ''notes.txt'', ''docs/odd.pdf''] None sample_world) ! 0
       = (''docs/bad.pdf'', Error_entry ''PyPDF2 extraction failed: EOF marker not found'')
   \<and> fst (batch_convert sample_env ''auto''
         [''docs/bad.pdf'', ''docs/a.pdf'', ''notes.txt'', ''docs/odd.pdf''] None sample_world) ! 1
       = (''docs/a.pdf'', Success_text (''One'' @ [CHR 0x0A] @ ''Three''))
   \<and> fst (batch_convert sample_env ''auto''
         [''docs/bad.pdf'', ''docs/a.pdf'', ''notes.txt'', ''docs/odd.pdf''] None sample_world) ! 3
       = (''docs/odd.pdf'', Success_text ''recovered'')
   \<and> success_count (fst (batch_convert sample_env ''auto''
         [''docs/bad.pdf'', ''docs/a.pdf'', ''notes.txt'', ''docs/odd.pdf''] None sample_world)) = 2
   \<and> error_count (fst (batch_convert sample_env ''auto''
         [''docs/bad.pdf'', ''docs/a.pdf'', ''notes.txt'', ''docs/odd.pdf''] None sample_world)) = 2
   \<and> length (fst (batch_convert sample_env ''auto''
         [''docs/bad.pdf'', ''docs/a.pdf'', ''notes.txt'', ''docs/odd.pdf''] None sample_world)) = 4
   \<and> calls (snd (batch_convert sample_env ''auto''
         [''docs/bad.pdf'', ''docs/a.pdf'', ''notes.txt'', ''docs/odd.pdf''] None sample_world))
       = [Pdfplumber, PyPDF2, Pdfplumber, Pdfplumber, PyPDF2]"
proof -
  let ?ps = "[''docs/bad.pdf'', ''docs/a.pdf'', ''notes.txt'', ''docs/odd.pdf'']"
  let ?R = "fst (batch_convert sample_env ''auto'' ?ps None sample_world)"
  let ?W = "\<lambda>i. snd (batch_convert sample_env ''auto'' (take i ?ps) None sample_world)"
  have d: "distinct ?ps" by simp
  have s: "success_count ?R = 2" by code_simp
  have e: "error_count ?R = 2" by code_simp
  have c: "calls (snd (batch_convert sample_env ''auto'' ?ps None sample_world))
       = [Pdfplumber, PyPDF2, Pdfplumber, Pdfplumber, PyPDF2]" by code_simp
  have c0: "fst (convert sample_env ''auto'' (?ps ! 0) (?W 0))
       = Inl (Exception ''PyPDF2 extraction failed: EOF marker not found'')" by code_simp
  have c1: "fst (convert sample_env ''auto'' (?ps ! 1) (?W 1))
       = Inr (''One'' @ [CHR 0x0A] @ ''Three'')" by code_simp
  have c3: "fst (convert sample_env ''auto'' (?ps ! 3) (?W 3)) = Inr ''recovered''" by code_simp
  have l: "length (''One'' @ [CHR 0x0A] @ ''Three'') \<le> 200" "length ''recovered'' \<le> 200"
    by simp_all
  note T = batch_report_one_entry_per_path [of sample_env "''auto''" ?ps None sample_world]
  from T d have keys: "map fst ?R = ?ps" and len: "length ?R = 4"
    by simp_all
  from T d have item: "\<And>i x w1. i < length ?ps \<Longrightarrow>
      convert sample_env ''auto'' (?ps ! i) (?W i) = (x, w1) \<Longrightarrow>
      fst (?R ! i) = ?ps ! i
      \<and> (case x of
            Inl e \<Rightarrow> snd (?R ! i) = Error_entry (str_of e)
          | Inr t \<Rightarrow> snd (?R ! i) = Success_text (if length t > 200 then take 200 t @ ''...'' else t))"
    by (auto split: sum.splits)
  have r0: "?R ! 0 = (''docs/bad.pdf'', Error_entry ''PyPDF2 extraction failed: EOF marker not found'')"
    using item [of 0 _ "snd (convert sample_env ''auto'' (?ps ! 0) (?W 0))"] c0
    by (auto simp add: prod_eq_iff)
  have r1: "?R ! 1 = (''docs/a.pdf'', Success_text (''One'' @ [CHR 0x0A] @ ''Three''))"
    using item [of 1 _ "snd (convert sample_env ''auto'' (?ps ! 1) (?W 1))"] c1
    by (auto simp add: prod_eq_iff)
  have r3: "?R ! 3 = (''docs/odd.pdf'', Success_text ''recovered'')"
    using item [of 3 _ "snd (convert sample_env ''auto'' (?ps ! 3) (?W 3))"] c3
    by (auto simp add: prod_eq_iff)
  from d keys r0 r1 r3 s e len c show ?thesis by blast
qed



section \<open>Exit status of the command\<close>

lemma extract_with_pdfplumber_fs_only:
  "fs w' = fs w \<Longrightarrow> fst (extract_with_pdfplumber E p w') = fst (extract_with_pdfplumber E p w)"
  by (simp add: extract_with_pdfplumber_def Let_def split: sum.splits)

lemma convert_fs_only:
  assumes "fs w' = fs w"
  shows "fst (convert E m p w') = fst (convert E m p w)"
proof -
  obtain x w1 where x: "extract_with_pdfplumber E p w = (x, w1)"
    by (cases "extract_with_pdfplumber E p w")
  obtain x' w1' where x': "extract_with_pdfplumber E p w' = (x', w1')"
    by (cases "extract_with_pdfplumber E p w'")
  have xx: "x' = x"
    using extract_with_pdfplumber_fs_only [OF assms, of E p] x x' by simp
  have f1: "fs w1' = fs w1"
    using fs_extract_with_pdfplumber [of E p w] fs_extract_with_pdfplumber [of E p w'] x x' assms
    by simp
  obtain y w2 where y: "extract_with_pypdf2 E p w1 = (y, w2)"
    by (cases "extract_with_pypdf2 E p w1")
  obtain y' w2' where y': "extract_with_pypdf2 E p w1' = (y', w2')"
    by (cases "extract_with_pypdf2 E p w1'")
  have yy: "y' = y"
    using extract_with_pypdf2_fs_only [OF f1, of E p] y y' by simp
  have f2: "fs w2' = fs w2"
    using fs_extract_with_pypdf2 [of E p w1] fs_extract_with_pypdf2 [of E p w1'] y y' f1
    by simp
  have zz: "fst (extract_with_pypdf2 E p w2') = fst (extract_with_pypdf2 E p w2)"
    using f2 by (rule extract_with_pypdf2_fs_only)
  have d: "fst (extract_with_pypdf2 E p w') = fst (extract_with_pypdf2 E p w)"
    using assms by (rule extract_with_pypdf2_fs_only)
  have e: "fst (extract_with_pdfplumber E p w') = fst (extract_with_pdfplumber E p w)"
    using assms by (rule extract_with_pdfplumber_fs_only)
  show ?thesis
    using assms x x' xx y y' yy zz d e
    using pathlib_exists_fs_only [OF assms, of p]
    by (simp add: convert_def split: sum.splits)
qed

lemma write_text_fs_only:
  "fs w' = fs w \<Longrightarrow> write_text p t w = Inr v \<Longrightarrow> \<exists>v'. write_text p t w' = Inr v'"
  by (auto simp add: write_text_def split: option.splits node.splits if_splits)

lemma fs_click_echo [simp]: "fs (click_echo x w) = fs w"
  by (simp add: click_echo_def)

lemma main_single_ok:
  assumes "is_file w ip" and "fst (convert E m ip w) = Inr t"
      and "output_given output \<longrightarrow> (\<exists>w'. write_text (the output) t w = Inr w')"
  shows "fst (main E ip output m recursive verbose w) = Returned"
proof -
  let ?w0 = "if verbose then click_echo (Converting ip) w else w"
  have f0: "fs ?w0 = fs w" by simp
  obtain w1 where c: "convert E m ip ?w0 = (Inr t, w1)"
    using convert_fs_only [OF f0, of E m ip] assms(2) by (cases "convert E m ip ?w0") simp
  have f1: "fs w1 = fs w"
    using fs_convert [of E m ip ?w0] c f0 by simp
  show ?thesis
  proof (cases "output_given output")
    case False
    then show ?thesis using assms(1) c by (simp add: main_def Let_def)
  next
    case True
    then obtain w' where "write_text (the output) t w = Inr w'" using assms(3) by blast
    then obtain w2 where "write_text (the output) t w1 = Inr w2"
      using write_text_fs_only [OF f1] by blast
    then show ?thesis using assms(1) c True by (simp add: main_def Let_def)
  qed
qed

lemma main_single_error:
  assumes "is_file w ip" and "fst (convert E m ip w) = Inl e"
  shows "fst (main E ip output m recursive verbose w) = SysExit 1"
proof -
  let ?w0 = "if verbose then click_echo (Converting ip) w else w"
  have f0: "fs ?w0 = fs w" by simp
  obtain w1 where c: "convert E m ip ?w0 = (Inl e, w1)"
    using convert_fs_only [OF f0, of E m ip] assms(2) by (cases "convert E m ip ?w0") simp
  show ?thesis using assms(1) c by (simp add: main_def Let_def)
qed

lemma is_file_not_dir: "is_dir w ip \<Longrightarrow> \<not> is_file w ip"
  by (simp add: is_dir_def is_file_def)

lemma main_no_files:
  assumes "is_dir w ip" and "glob E (fs w) ip (if recursive then ''**/*.pdf'' else ''*.pdf'') = []"
  shows "fst (main E ip output m recursive verbose w) = SysExit 0"
  using assms is_file_not_dir [OF assms(1)] by (simp add: main_def Let_def)

lemma main_batch:
  assumes "is_dir w ip" and "glob E (fs w) ip (if recursive then ''**/*.pdf'' else ''*.pdf'') \<noteq> []"
      and "output_given output \<longrightarrow> (\<exists>f. mkdir E (fs w) (the output) = Inr f)"
  shows "fst (main E ip output m recursive verbose w) = Returned"
proof (cases "output_given output")
  case False
  then show ?thesis
    using assms(1,2) is_file_not_dir [OF assms(1)]
    by (simp add: main_def Let_def split: prod.splits)
next
  case True
  then obtain f where "mkdir E (fs w) (the output) = Inr f" using assms(3) by blast
  then show ?thesis
    using True assms(1,2) is_file_not_dir [OF assms(1)]
    by (simp add: main_def Let_def split: prod.splits)
qed

lemma main_invalid:
  "path_exists w ip \<Longrightarrow> \<not> is_file w ip \<Longrightarrow> \<not> is_dir w ip \<Longrightarrow>
   fst (main E ip output m recursive verbose w) = SysExit 1"
  by (simp add: main_def)

lemma fst_click_main:
  "path_exists w ip \<Longrightarrow> m \<in> set [''auto'', ''pypdf2'', ''pdfplumber''] \<Longrightarrow>
   fst (click_main E ip output m recursive verbose w)
     = exit_code (fst (main E ip output m recursive verbose w))"
  by (simp add: click_main_def split: prod.splits)

lemma is_file_exists: "is_file w ip \<Longrightarrow> path_exists w ip"
  by (auto simp add: is_file_def path_exists_iff stat_error_def split: option.splits node.splits)

lemma is_dir_exists: "is_dir w ip \<Longrightarrow> path_exists w ip"
  by (simp add: is_dir_def path_exists_iff stat_error_def)

text \<open>
  Claim C8, as amended. The process exits with status 0 after a single-file
  conversion that succeeds (and whose output, when one is asked for, is
  written), after a batch run whatever the number of files that failed, and
  when the directory has no PDF file. It exits with status 1 when the
  single-file conversion raises and when the input path exists but is neither
  a file nor a directory. An input path that does not exist never reaches the
  body of \<^verbatim>\<open>main\<close>: \<^verbatim>\<open>click.Path(exists=True)\<close> refuses it and the process exits
  with status 2.
\<close>
theorem click_main_exit_codes:
  assumes "m \<in> set [''auto'', ''pypdf2'', ''pdfplumber'']"
  shows "(is_file w ip \<and> fst (convert E m ip w) = Inr t
          \<and> (output_given output \<longrightarrow> (\<exists>w'. write_text (the output) t w = Inr w')) \<longrightarrow>
            fst (click_main E ip output m recursive verbose w) = 0)
       \<and> (is_dir w ip
          \<and> glob E (fs w) ip (if recursive then ''**/*.pdf'' else ''*.pdf'') \<noteq> []
          \<and> (output_given output \<longrightarrow> (\<exists>f. mkdir E (fs w) (the output) = Inr f)) \<longrightarrow>
            fst (click_main E ip output m recursive verbose w) = 0)
       \<and> (is_dir w ip
          \<and> glob E (fs w) ip (if recursive then ''**/*.pdf'' else ''*.pdf'') = [] \<longrightarrow>
            fst (click_main E ip output m recursive verbose w) = 0)
       \<and> (is_file w ip \<and> fst (convert E m ip w) = Inl e \<longrightarrow>
            fst (click_main E ip output m recursive verbose w) = 1)
       \<and> (path_exists w ip \<and> \<not> is_file w ip \<and> \<not> is_dir w ip \<longrightarrow>
            fst (click_main E ip output m recursive verbose w) = 1)
       \<and> (\<not> path_exists w ip \<longrightarrow>
            fst (click_main E ip output m recursive verbose w) = 2)"
proof (intro conjI impI)
  assume h: "is_file w ip \<and> fst (convert E m ip w) = Inr t
          \<and> (output_given output \<longrightarrow> (\<exists>w'. write_text (the output) t w = Inr w'))"
  then have "fst (main E ip output m recursive verbose w) = Returned"
    using main_single_ok [of w ip E m t "output"] by blast
  then show "fst (click_main E ip output m recursive verbose w) = 0"
    using fst_click_main [OF _ assms, of w ip] is_file_exists h by simp
next
  assume h: "is_dir w ip
          \<and> glob E (fs w) ip (if recursive then ''**/*.pdf'' else ''*.pdf'') \<noteq> []
          \<and> (output_given output \<longrightarrow> (\<exists>f. mkdir E (fs w) (the output) = Inr f))"
  then have "fst (main E ip output m recursive verbose w) = Returned"
    using main_batch [of w ip E recursive "output"] by blast
  then show "fst (click_main E ip output m recursive verbose w) = 0"
    using fst_click_main [OF _ assms, of w ip] is_dir_exists h by simp
next
  assume h: "is_dir w ip
          \<and> glob E (fs w) ip (if recursive then ''**/*.pdf'' else ''*.pdf'') = []"
  then have "fst (main E ip output m recursive verbose w) = SysExit 0"
    using main_no_files [of w ip E recursive] by blast
  then show "fst (click_main E ip output m recursive verbose w) = 0"
    using fst_click_main [OF _ assms, of w ip] is_dir_exists h by simp
next
  assume h: "is_file w ip \<and> fst (convert E m ip w) = Inl e"
  then have "fst (main E ip output m recursive verbose w) = SysExit 1"
    using main_single_error [of w ip E m e] by blast
  then show "fst (click_main E ip output m recursive verbose w) = 1"
    using fst_click_main [OF _ assms, of w ip] is_file_exists h by simp
next
  assume h: "path_exists w ip \<and> \<not> is_file w ip \<and> \<not> is_dir w ip"
  then have "fst (main E ip output m recursive verbose w) = SysExit 1"
    using main_invalid [of w ip] by blast
  then show "fst (click_main E ip output m recursive verbose w) = 1"
    using fst_click_main [OF _ assms, of w ip] h by simp
next
  assume "\<not> path_exists w ip"
  then show "fst (click_main E ip output m recursive verbose w) = 2"
    by (simp add: click_main_def)
qed

text \<open>
  Claim C8 as stated gives status 1 for an input path that does not exist; the
  process ends with the status of click's usage error instead.
\<close>
theorem click_main_missing_path_counterexample:
  "\<not> path_exists sample_world ''nothing.pdf''
   \<and> fst (click_main sample_env ''nothing.pdf'' None ''auto'' False False sample_world) = 2
   \<and> fst (click_main sample_env ''nothing.pdf'' None ''auto'' False False sample_world) \<noteq> 1"
  by code_simp


theorem click_main_exit_codes_witness:
  "''auto'' \<in> set [''auto'', ''pypdf2'', ''pdfplumber'']
   \<and> is_file sample_world ''docs/a.pdf''
   \<and> fst (click_main sample_env ''docs/a.pdf'' (Some ''out/a.txt'') ''auto'' False True sample_world) = 0
   \<and> is_dir sample_world ''docs''
   \<and> glob sample_env (fs sample_world) ''docs'' ''*.pdf'' = [''docs/a.pdf'', ''docs/bad.pdf'']
   \<and> error_count (fst (batch_convert sample_env ''auto'' [''docs/a.pdf'', ''docs/bad.pdf'']
         (Some ''out'') sample_world)) = 1
   \<and> fst (click_main sample_env ''docs'' (Some ''out'') ''auto'' False True sample_world) = 0
   \<and> is_dir sample_world ''empty''
   \<and> fst (click_main sample_env ''empty'' None ''auto'' True False sample_world) = 0
   \<and> is_file sample_world ''docs/bad.pdf''
   \<and> fst (click_main sample_env ''docs/bad.pdf'' None ''auto'' False False sample_world) = 1
   \<and> path_exists sample_world ''/dev/null''
   \<and> fst (click_main sample_env ''/dev/null'' None ''auto'' False False sample_world) = 1
   \<and> \<not> path_exists sample_world ''nothing.pdf''
   \<and> fst (click_main sample_env ''nothing.pdf'' None ''auto'' False False sample_world) = 2"
proof -
  let ?t = "''One'' @ [CHR 0x0A] @ ''Three''"
  let ?e = "Exception ''PyPDF2 extraction failed: EOF marker not found''"
  have mv: "''auto'' \<in> set [''auto'', ''pypdf2'', ''pdfplumber'']" by simp
  have a1: "is_file sample_world ''docs/a.pdf''" by code_simp
  have a2: "fst (convert sample_env ''auto'' ''docs/a.pdf'' sample_world) = Inr ?t" by code_simp
  have "fs sample_world ''out/a.txt'' = None"
    and "fs sample_world (path_parent ''out/a.txt'') = Some Dir"
    by code_simp+
  then have a3: "output_given (Some ''out/a.txt'') \<longrightarrow>
      (\<exists>w'. write_text (the (Some ''out/a.txt'')) ?t sample_world = Inr w')"
    by (simp add: write_text_def)
  have b1: "is_dir sample_world ''docs''" by code_simp
  have b2: "glob sample_env (fs sample_world) ''docs'' ''*.pdf'' = [''docs/a.pdf'', ''docs/bad.pdf'']"
    by code_simp
  have "fs sample_world ''out'' = Some Dir" by code_simp
  then have b3: "output_given (Some ''out'') \<longrightarrow>
      (\<exists>f. mkdir sample_env (fs sample_world) (the (Some ''out'')) = Inr f)"
    by (simp add: sample_env_def)
  have b4: "error_count (fst (batch_convert sample_env ''auto'' [''docs/a.pdf'', ''docs/bad.pdf'']
         (Some ''out'') sample_world)) = 1"
    by code_simp
  have c1: "is_dir sample_world ''empty''" by code_simp
  have c2: "glob sample_env (fs sample_world) ''empty'' ''**/*.pdf'' = []" by code_simp
  have d1: "is_file sample_world ''docs/bad.pdf''" by code_simp
  have d2: "fst (convert sample_env ''auto'' ''docs/bad.pdf'' sample_world) = Inl ?e" by code_simp
  have e1: "path_exists sample_world ''/dev/null''" by code_simp
  have e2: "\<not> is_file sample_world ''/dev/null''" by code_simp
  have e3: "\<not> is_dir sample_world ''/dev/null''" by code_simp
  have f1: "\<not> path_exists sample_world ''nothing.pdf''" by code_simp
  note T = click_main_exit_codes [OF mv]
  have ra: "fst (click_main sample_env ''docs/a.pdf'' (Some ''out/a.txt'') ''auto'' False True
      sample_world) = 0"
    using T [of sample_world "''docs/a.pdf''" sample_env ?t "Some ''out/a.txt''" False True]
      a1 a2 a3 by blast
  have rb: "fst (click_main sample_env ''docs'' (Some ''out'') ''auto'' False True sample_world) = 0"
    using T [of sample_world "''docs''" sample_env _ "Some ''out''" False True] b1 b2 b3
    by simp
  have rc: "fst (click_main sample_env ''empty'' None ''auto'' True False sample_world) = 0"
    using T [of sample_world "''empty''" sample_env _ None True False] c1 c2 by simp
  have rd: "fst (click_main sample_env ''docs/bad.pdf'' None ''auto'' False False sample_world) = 1"
    using T [of sample_world "''docs/bad.pdf''" sample_env _ None False False ?e] d1 d2 by blast
  have re: "fst (click_main sample_env ''/dev/null'' None ''auto'' False False sample_world) = 1"
    using T [of sample_world "''/dev/null''" sample_env _ None False False] e1 e2 e3 by blast
  have rf: "fst (click_main sample_env ''nothing.pdf'' None ''auto'' False False sample_world) = 2"
    using T [of sample_world "''nothing.pdf''" sample_env _ None False False] f1 by blast
  from mv a1 ra b1 b2 b4 rb c1 rc d1 rd e1 re f1 rf show ?thesis by blast
qed

end
